theory Spec2Isabelle
  imports Complex_Main
begin

section \<open>Conventions of the embedding\<close>

text \<open>
  The program is a Python game core (\<^verbatim>\<open>game.py\<close>). Every class becomes a record with
  the attribute names of the source, every method a function that takes the object and
  returns the updated object (together with the method's return value where it has
  one). Module-level variables (\<^verbatim>\<open>SCORE\<close>, \<^verbatim>\<open>HAS_KEY\<close>, \<^verbatim>\<open>HIGH_SCORE\<close>), the high-score
  file and the victory flags of the global \<^verbatim>\<open>game_state_manager\<close> are collected in the
  record \<open>globals\<close>, which is threaded through every method that touches them.

  Clock readings (\<^verbatim>\<open>time.time()\<close>, \<^verbatim>\<open>pygame.time.get_ticks() / 1000.0\<close>) are an explicit
  argument \<open>now\<close> of type \<open>real\<close>: one reading per call of a method, so the few
  methods that read the clock twice in a row see the same instant; durations are compared
  as real numbers, without the rounding of floating-point subtraction. Python strings stay
  strings, Python integers are \<open>int\<close>. An exception that a method lets escape is the
  \<open>Inl\<close> branch of its result. Sound playback, music, printing and drawing have no
  effect on the simulated state and are left out.
\<close>

definition TILE_SIZE :: int where
  "TILE_SIZE = 16"

definition MOVEMENT_COOLDOWN :: real where
  "MOVEMENT_COOLDOWN = 0.15"

datatype error = KeyError | IndexError | PermissionError


section \<open>High score persistence\<close>





definition digit_char :: "nat \<Rightarrow> char" where
  "digit_char d = char_of (48 + d)"

function str_nat :: "nat \<Rightarrow> string" where
  "str_nat n =
     (if n < 10 then [digit_char n] else str_nat (n div 10) @ [digit_char (n mod 10)])"
  by pat_completeness auto
termination
  by (relation "measure id") auto

declare str_nat.simps [simp del]

definition py_str :: "int \<Rightarrow> string" where
  "py_str i = (if i < 0 then CHR ''-'' # str_nat (nat (- i)) else str_nat (nat i))"




text \<open>
  The file \<^verbatim>\<open>data/highscore.txt\<close> as \<^verbatim>\<open>open\<close> finds it: absent (\<^verbatim>\<open>FileNotFoundError\<close>), present
  but not openable for another reason of the operating system (\<^verbatim>\<open>PermissionError\<close>, which
  \<^verbatim>\<open>load_high_score\<close> does not catch), or present with a text.
\<close>

datatype file_status = Missing | Denied | Content string

record globals =
  SCORE :: int
  HAS_KEY :: bool
  HIGH_SCORE :: int
  highscore_file :: file_status
  data_writable :: bool
  load_cache :: "int option"
  victory_freeze :: bool
  victory_freeze_timer :: real


text \<open>
  \<open>data_writable\<close> says whether \<^verbatim>\<open>os.makedirs\<close> and \<^verbatim>\<open>open(..., "w")\<close> succeed; when they
  raise, \<^verbatim>\<open>save_high_score\<close> catches the exception and neither the file nor the cache
  changes.
\<close>

definition save_high_score :: "int \<Rightarrow> globals \<Rightarrow> globals" where
  "save_high_score score g =
     (if data_writable g
      then g\<lparr>highscore_file := Content (py_str score), load_cache := None\<rparr>
      else g)"


section \<open>Animation manager\<close>

record clip =
  frames :: "(nat \<times> nat) list"
  duration :: real
  loop :: "bool option"

record animation_manager =
  animations :: "(string \<times> clip) list"
  current_anim :: "string option"
  frame_idx :: int
  last_update :: real
  finished :: bool
  paused :: bool

definition AnimationManager_init :: "(string \<times> clip) list \<Rightarrow> animation_manager" where
  "AnimationManager_init anims =
     \<lparr>animations = anims, current_anim = None, frame_idx = 0, last_update = 0,
      finished = False, paused = False\<rparr>"

definition play :: "animation_manager \<Rightarrow> string \<Rightarrow> bool \<Rightarrow> real \<Rightarrow> animation_manager" where
  "play am anim_name reset now =
     (if map_of (animations am) anim_name = None then am
      else if current_anim am \<noteq> Some anim_name \<or> reset then
        am\<lparr>current_anim := Some anim_name, frame_idx := 0, last_update := now,
            finished := False\<rparr>
      else am)"

definition set_paused :: "animation_manager \<Rightarrow> bool \<Rightarrow> animation_manager" where
  "set_paused am p = am\<lparr>paused := p\<rparr>"

text \<open>
  \<^verbatim>\<open>AnimationManager.update\<close>. \<^verbatim>\<open>not self.current_anim\<close> holds for \<^verbatim>\<open>None\<close> and for the
  empty string; \<^verbatim>\<open>self.animations[self.current_anim]\<close> raises \<^verbatim>\<open>KeyError\<close> for a name that
  is not in the table; \<^verbatim>\<open>anim.get("loop", True)\<close> defaults to looping.
\<close>

definition AnimationManager_update :: "animation_manager \<Rightarrow> real \<Rightarrow> error + animation_manager" where
  "AnimationManager_update am now =
     (case current_anim am of
        None \<Rightarrow> Inr am
      | Some name \<Rightarrow>
          if name = [] \<or> finished am \<or> paused am then Inr am
          else
            (case map_of (animations am) name of
               None \<Rightarrow> Inl KeyError
             | Some anim \<Rightarrow>
                 if now - last_update am \<ge> duration anim then
                   (let am1 = am\<lparr>frame_idx := frame_idx am + 1, last_update := now\<rparr>;
                        frame_count = int (length (frames anim))
                    in if frame_idx am1 \<ge> frame_count then
                         (if (case loop anim of None \<Rightarrow> True | Some b \<Rightarrow> b)
                          then Inr (am1\<lparr>frame_idx := 0\<rparr>)
                          else Inr (am1\<lparr>frame_idx := frame_count - 1, finished := True\<rparr>))
                       else Inr am1)
                 else Inr am))"

text \<open>
  A client of the animation manager calls \<^verbatim>\<open>play\<close>, \<^verbatim>\<open>update\<close> and \<^verbatim>\<open>set_paused\<close> in any
  order; \<open>run_ops\<close> performs such a sequence and stops at the first exception.
\<close>

datatype anim_op = Play string bool real | Update real | SetPaused bool

fun run_ops :: "animation_manager \<Rightarrow> anim_op list \<Rightarrow> error + animation_manager" where
  "run_ops am [] = Inr am"
| "run_ops am (Play name reset now # ops) = run_ops (play am name reset now) ops"
| "run_ops am (Update now # ops) =
     (case AnimationManager_update am now of
        Inl e \<Rightarrow> Inl e
      | Inr am' \<Rightarrow> run_ops am' ops)"
| "run_ops am (SetPaused p # ops) = run_ops (set_paused am p) ops"


section \<open>Rectangles\<close>

text \<open>
  \<^verbatim>\<open>pygame.Rect\<close> and its \<^verbatim>\<open>colliderect\<close> belong to the pygame library. The model follows the
  library's documented behaviour: two rectangles collide when their interiors overlap,
  edges that only touch do not collide, and a rectangle of width or height zero collides
  with nothing.
\<close>

record rect =
  rect_x :: int
  rect_y :: int
  rect_w :: int
  rect_h :: int

definition colliderect :: "rect \<Rightarrow> rect \<Rightarrow> bool" where
  "colliderect a b =
     (if rect_w a = 0 \<or> rect_h a = 0 \<or> rect_w b = 0 \<or> rect_h b = 0 then False
      else min (rect_x a) (rect_x a + rect_w a) < max (rect_x b) (rect_x b + rect_w b)
         \<and> min (rect_y a) (rect_y a + rect_h a) < max (rect_y b) (rect_y b + rect_h b)
         \<and> max (rect_x a) (rect_x a + rect_w a) > min (rect_x b) (rect_x b + rect_w b)
         \<and> max (rect_y a) (rect_y a + rect_h a) > min (rect_y b) (rect_y b + rect_h b))"


section \<open>Data model of the entities and the level\<close>

record player =
  x :: int
  y :: int
  facing :: string
  last_move :: real
  health :: int
  max_health :: int
  state :: string
  state_timer :: real
  invincible_timer :: real
  rect :: rect
  anim :: animation_manager
  sword_anim :: animation_manager
  last_update :: real

record enemy =
  x :: int
  y :: int
  start_x :: int
  start_y :: int
  facing :: string
  movement_type :: string
  blocks :: int
  blocks_moved :: int
  last_move :: real
  move_cooldown :: real
  state :: string
  state_timer :: real
  anim :: animation_manager

text \<open>
  \<^verbatim>\<open>Boss.__init__\<close> does not call \<^verbatim>\<open>Enemy.__init__\<close>, so a boss has its own attributes.
  \<^verbatim>\<open>_last_update\<close> is created by the first \<^verbatim>\<open>update\<close>; until then it is \<open>None\<close>. The
  attribute \<^verbatim>\<open>size\<close> is the field \<open>boss_size\<close>. \<^verbatim>\<open>t_sequence\<close> is assigned once and never
  changed: it is the constant \<open>t_sequence\<close> below.
\<close>

record boss =
  x :: int
  y :: int
  start_x :: int
  start_y :: int
  facing :: string
  movement_type :: string
  state :: string
  state_timer :: real
  max_health :: int
  current_health :: int
  boss_size :: int
  anim :: animation_manager
  move_cooldown :: real
  last_move :: real
  blocks_moved :: int
  target_blocks :: int
  current_sequence_index :: nat
  current_direction :: string
  defeated :: bool
  victory_timer :: real
  last_update :: "real option"

record door =
  rect :: rect
  locked :: bool

record pickup =
  x :: int
  y :: int
  pickup_type :: string
  collected :: bool
  anim :: animation_manager

text \<open>
  \<^verbatim>\<open>LevelLoader.objects\<close> holds the player object itself next to the enemies; \<open>PlayerObj\<close>
  stands for that reference to \<^verbatim>\<open>LevelLoader.player\<close>. A \<^verbatim>\<open>Boss\<close> is an instance of
  \<^verbatim>\<open>Enemy\<close> in the source, so \<^verbatim>\<open>isinstance(obj, Enemy)\<close> holds for \<open>EnemyObj\<close> and
  \<open>BossObj\<close>.
\<close>

datatype obj = PlayerObj | EnemyObj enemy | BossObj boss

record level_loader =
  level_sequence :: "string list"
  current_level_index :: int
  objects :: "obj list"
  player :: "player option"
  collision_grid :: "bool list list"
  doors :: "door list"
  pickups :: "pickup list"
  transitioning :: bool
  transition_timer :: real
  transition_duration :: real
  level_width :: int
  level_height :: int


section \<open>Collision query of the level\<close>

text \<open>
  \<^verbatim>\<open>LevelLoader.is_position_blocked\<close>. Python's \<^verbatim>\<open>//\<close> and \<open>div\<close> on \<open>int\<close> both round
  towards minus infinity. The bounds test reads the length of row 0 only, so a grid whose
  row \<open>tile_y\<close> is shorter raises \<^verbatim>\<open>IndexError\<close>.
\<close>

definition is_position_blocked :: "level_loader \<Rightarrow> int \<Rightarrow> int \<Rightarrow> error + bool" where
  "is_position_blocked L px py =
     (let tile_x = px div TILE_SIZE; tile_y = py div TILE_SIZE; grid = collision_grid L
      in if tile_x < 0 \<or> tile_y < 0 \<or> tile_y \<ge> int (length grid)
            \<or> tile_x \<ge> int (length (grid ! 0))
         then Inr True
         else if nat tile_x < length (grid ! nat tile_y)
         then Inr (grid ! nat tile_y ! nat tile_x)
         else Inl IndexError)"

definition get_level_size :: "level_loader \<Rightarrow> int \<times> int" where
  "get_level_size L = (level_width L, level_height L)"

definition start_transition :: "level_loader \<Rightarrow> real \<Rightarrow> bool \<times> level_loader" where
  "start_transition L now =
     (if transitioning L then (False, L)
      else (True, L\<lparr>transitioning := True, transition_timer := now\<rparr>))"


section \<open>Player\<close>

definition Player_ANIMATIONS :: "(string \<times> clip) list" where
  "Player_ANIMATIONS =
     [(''idle_right'', \<lparr>frames = [(0, 0), (0, 1), (0, 2)], duration = 0.6, loop = Some True\<rparr>),
      (''idle_left'', \<lparr>frames = [(1, 0), (1, 1), (1, 2)], duration = 0.6, loop = Some True\<rparr>),
      (''walk_right'', \<lparr>frames = [(2, 0), (2, 1), (2, 2), (2, 3)], duration = 0.6, loop = Some True\<rparr>),
      (''walk_left'', \<lparr>frames = [(3, 0), (3, 1), (3, 2), (3, 3)], duration = 0.6, loop = Some True\<rparr>),
      (''hurt_right'', \<lparr>frames = [(4, 1), (4, 2), (4, 3), (4, 4), (4, 5)], duration = 0.6, loop = Some False\<rparr>),
      (''hurt_left'', \<lparr>frames = [(5, 1), (5, 2), (5, 3), (5, 4), (5, 5)], duration = 0.6, loop = Some False\<rparr>),
      (''die_right'', \<lparr>frames = [(6, 1), (6, 2), (6, 3)], duration = 0.6, loop = Some False\<rparr>),
      (''die_left'', \<lparr>frames = [(7, 1), (7, 2), (7, 3)], duration = 0.6, loop = Some False\<rparr>)]"

definition SWORD_ANIMATIONS :: "(string \<times> clip) list" where
  "SWORD_ANIMATIONS =
     [(''attack_left'', \<lparr>frames = [(0, 0), (0, 1), (0, 2), (0, 3), (0, 4)], duration = 0.1, loop = Some False\<rparr>),
      (''attack_right'', \<lparr>frames = [(2, 0), (2, 1), (2, 2), (2, 3), (2, 4)], duration = 0.1, loop = Some False\<rparr>)]"

definition Player_init :: "int \<Rightarrow> int \<Rightarrow> real \<Rightarrow> player" where
  "Player_init px py now =
     (let gx = (px div TILE_SIZE) * TILE_SIZE; gy = (py div TILE_SIZE) * TILE_SIZE
      in \<lparr>player.x = gx, player.y = gy, player.facing = ''right'', player.last_move = 0,
          player.health = 3, player.max_health = 3, player.state = ''idle'',
          player.state_timer = 0, player.invincible_timer = 0,
          player.rect = \<lparr>rect_x = gx, rect_y = gy, rect_w = TILE_SIZE, rect_h = TILE_SIZE\<rparr>,
          player.anim = play (AnimationManager_init Player_ANIMATIONS) ''idle_right'' True now,
          player.sword_anim = AnimationManager_init SWORD_ANIMATIONS,
          player.last_update = now\<rparr>)"

definition Player_can_move :: "player \<Rightarrow> real \<Rightarrow> bool" where
  "Player_can_move p current_time = (current_time - player.last_move p \<ge> MOVEMENT_COOLDOWN)"

definition Player_move :: "player \<Rightarrow> int \<Rightarrow> int \<Rightarrow> int \<Rightarrow> int \<Rightarrow> real \<Rightarrow> bool \<times> player" where
  "Player_move p dx dy lvl_width lvl_height current_time =
     (if player.state p \<in> set [''attacking'', ''hurt'', ''dying'']
         \<or> \<not> Player_can_move p current_time
      then (False, p)
      else
        (let p1 = (if dx > 0 then p\<lparr>player.facing := ''right''\<rparr>
                   else if dx < 0 then p\<lparr>player.facing := ''left''\<rparr>
                   else p);
             new_x = player.x p1 + dx * TILE_SIZE;
             new_y = player.y p1 + dy * TILE_SIZE
         in if 0 \<le> new_x \<and> new_x \<le> lvl_width - TILE_SIZE
               \<and> 0 \<le> new_y \<and> new_y \<le> lvl_height - TILE_SIZE
            then (True, p1\<lparr>player.x := new_x, player.y := new_y,
                           player.rect := (player.rect p1)\<lparr>rect_x := new_x, rect_y := new_y\<rparr>,
                           player.last_move := current_time,
                           player.state := ''moving''\<rparr>)
            else (False, p1)))"

definition Player_start_attack :: "player \<Rightarrow> real \<Rightarrow> bool \<times> player" where
  "Player_start_attack p now =
     (if player.state p \<in> set [''attacking'', ''hurt'', ''dying''] then (False, p)
      else (True, p\<lparr>player.state := ''attacking'', player.state_timer := now,
                     player.sword_anim :=
                       play (player.sword_anim p) (''attack_'' @ player.facing p) True now\<rparr>))"

definition Player_start_hurt :: "player \<Rightarrow> real \<Rightarrow> player" where
  "Player_start_hurt p now =
     p\<lparr>player.state := ''hurt'', player.state_timer := now, player.invincible_timer := 1.8,
       player.anim := play (player.anim p) (''hurt_'' @ player.facing p) True now\<rparr>"

definition Player_start_death :: "player \<Rightarrow> real \<Rightarrow> player" where
  "Player_start_death p now =
     p\<lparr>player.state := ''dying'', player.state_timer := now,
       player.anim := play (player.anim p) (''die_'' @ player.facing p) True now\<rparr>"

definition Player_take_damage :: "player \<Rightarrow> int \<Rightarrow> real \<Rightarrow> bool \<times> player" where
  "Player_take_damage p damage now =
     (if player.invincible_timer p > 0 \<or> player.state p \<in> set [''hurt'', ''dying'']
      then (False, p)
      else
        (let p1 = p\<lparr>player.health := player.health p - damage\<rparr>
         in if player.health p1 \<le> 0 then (True, Player_start_death p1 now)
            else (True, Player_start_hurt p1 now)))"

definition Player_get_rect :: "player \<Rightarrow> rect" where
  "Player_get_rect p = player.rect p"

definition Player_is_dead :: "player \<Rightarrow> bool" where
  "Player_is_dead p = (player.health p \<le> 0)"


section \<open>Enemy\<close>

definition Enemy_ANIMATIONS :: "(string \<times> clip) list" where
  "Enemy_ANIMATIONS =
     [(''idle_right'', \<lparr>frames = [(0, 0), (0, 1)], duration = 0.6, loop = Some True\<rparr>),
      (''idle_left'', \<lparr>frames = [(1, 0), (1, 1)], duration = 0.6, loop = Some True\<rparr>),
      (''walk_right'', \<lparr>frames = [(2, 0), (2, 1), (2, 2)], duration = 0.4, loop = Some True\<rparr>),
      (''walk_left'', \<lparr>frames = [(3, 0), (3, 1), (3, 2)], duration = 0.4, loop = Some True\<rparr>),
      (''hurt_right'', \<lparr>frames = [(4, 0), (4, 1), (4, 2), (4, 3)], duration = 0.2, loop = Some False\<rparr>),
      (''hurt_left'', \<lparr>frames = [(5, 0), (5, 1), (5, 2), (5, 3)], duration = 0.2, loop = Some False\<rparr>)]"

text \<open>
  \<^verbatim>\<open>Enemy.__init__\<close>; \<open>enemy_type\<close> only selects the sprite sheet.
\<close>

definition Enemy_init :: "int \<Rightarrow> int \<Rightarrow> string \<Rightarrow> string \<Rightarrow> int \<Rightarrow> real \<Rightarrow> enemy" where
  "Enemy_init px py enemy_type movement blks now =
     (let gx = (px div TILE_SIZE) * TILE_SIZE; gy = (py div TILE_SIZE) * TILE_SIZE
      in \<lparr>enemy.x = gx, enemy.y = gy, enemy.start_x = gx, enemy.start_y = gy,
          enemy.facing = ''right'', enemy.movement_type = movement, enemy.blocks = blks,
          enemy.blocks_moved = 0, enemy.last_move = 0, enemy.move_cooldown = 0.3,
          enemy.state = ''moving'', enemy.state_timer = 0,
          enemy.anim = play (AnimationManager_init Enemy_ANIMATIONS) ''walk_right'' True now\<rparr>)"

text \<open>
  \<^verbatim>\<open>Enemy._update_movement\<close>. The level loader is an optional argument of \<^verbatim>\<open>update\<close>;
  without one every move is allowed.
\<close>

definition Enemy_update_movement :: "enemy \<Rightarrow> real \<Rightarrow> level_loader option \<Rightarrow> error + enemy" where
  "Enemy_update_movement e now loader =
     (if now - enemy.last_move e < enemy.move_cooldown e then Inr e
      else
        (let dx = (if enemy.movement_type e = ''horizontal''
                   then (if enemy.facing e = ''right'' then 1 else - 1) else 0);
             dy = (if enemy.movement_type e = ''horizontal''
                   then 0 else (if enemy.facing e = ''right'' then 1 else - 1));
             new_x = enemy.x e + dx * TILE_SIZE;
             new_y = enemy.y e + dy * TILE_SIZE
         in case (case loader of
                    None \<Rightarrow> Inr True
                  | Some L \<Rightarrow> map_sum id Not (is_position_blocked L new_x new_y)) of
              Inl err \<Rightarrow> Inl err
            | Inr can_move \<Rightarrow>
                if can_move then
                  (let e1 = e\<lparr>enemy.x := new_x, enemy.y := new_y,
                               enemy.blocks_moved := enemy.blocks_moved e + 1,
                               enemy.last_move := now\<rparr>
                   in if enemy.blocks_moved e1 \<ge> enemy.blocks e1
                      then Inr (e1\<lparr>enemy.state := ''idle'', enemy.state_timer := now,
                                    enemy.anim :=
                                      play (enemy.anim e1) (''idle_'' @ enemy.facing e1) True now\<rparr>)
                      else Inr e1)
                else
                  Inr (e\<lparr>enemy.state := ''idle'', enemy.state_timer := now,
                          enemy.anim :=
                            play (enemy.anim e) (''idle_'' @ enemy.facing e) True now\<rparr>)))"

definition Enemy_anim_update :: "enemy \<Rightarrow> real \<Rightarrow> error + enemy" where
  "Enemy_anim_update e now =
     (case AnimationManager_update (enemy.anim e) now of
        Inl err \<Rightarrow> Inl err
      | Inr a \<Rightarrow> Inr (e\<lparr>enemy.anim := a\<rparr>))"

text \<open>
  \<^verbatim>\<open>Enemy.update\<close>. A dying enemy whose second has passed returns before the animation
  is advanced; every other path ends with \<^verbatim>\<open>self.anim.update()\<close>.
\<close>

definition Enemy_update :: "enemy \<Rightarrow> real \<Rightarrow> level_loader option \<Rightarrow> error + enemy" where
  "Enemy_update e now loader =
     (if enemy.state e = ''dying'' then
        (if now - enemy.state_timer e \<ge> 1.0 then Inr e else Enemy_anim_update e now)
      else if enemy.state e = ''hurt'' then
        (if now - enemy.state_timer e \<ge> 0.8
         then Enemy_anim_update
                (e\<lparr>enemy.state := ''moving'',
                   enemy.anim := play (enemy.anim e) (''walk_'' @ enemy.facing e) True now\<rparr>) now
         else Enemy_anim_update e now)
      else if enemy.state e = ''moving'' then
        (case Enemy_update_movement e now loader of
           Inl err \<Rightarrow> Inl err
         | Inr e1 \<Rightarrow> Enemy_anim_update e1 now)
      else if enemy.state e = ''idle'' then
        (if now - enemy.state_timer e \<ge> 3.0
         then (let f = (if enemy.facing e = ''right'' then ''left'' else ''right'')
               in Enemy_anim_update
                    (e\<lparr>enemy.facing := f, enemy.state := ''moving'', enemy.blocks_moved := 0,
                       enemy.anim := play (enemy.anim e) (''walk_'' @ f) True now\<rparr>) now)
         else Enemy_anim_update e now)
      else Enemy_anim_update e now)"

definition Enemy_take_damage :: "enemy \<Rightarrow> real \<Rightarrow> bool \<times> enemy" where
  "Enemy_take_damage e now =
     (if enemy.state e \<in> set [''hurt'', ''dying''] then (False, e)
      else (True, e\<lparr>enemy.state := ''hurt'', enemy.state_timer := now,
                     enemy.anim := play (enemy.anim e) (''hurt_'' @ enemy.facing e) True now\<rparr>))"

definition Enemy_start_death :: "enemy \<Rightarrow> real \<Rightarrow> enemy" where
  "Enemy_start_death e now = e\<lparr>enemy.state := ''dying'', enemy.state_timer := now\<rparr>"

definition Enemy_should_be_removed :: "enemy \<Rightarrow> real \<Rightarrow> bool" where
  "Enemy_should_be_removed e now =
     (enemy.state e = ''dying'' \<and> now - enemy.state_timer e \<ge> 1.0)"

definition Enemy_get_rect :: "enemy \<Rightarrow> rect" where
  "Enemy_get_rect e =
     \<lparr>rect_x = enemy.x e, rect_y = enemy.y e, rect_w = TILE_SIZE, rect_h = TILE_SIZE\<rparr>"


section \<open>Boss\<close>

definition BOSS_ANIMATIONS :: "(string \<times> clip) list" where
  "BOSS_ANIMATIONS =
     [(''idle_right'', \<lparr>frames = [(0, 0), (0, 1)], duration = 0.6, loop = Some True\<rparr>),
      (''idle_left'', \<lparr>frames = [(1, 0), (1, 1)], duration = 0.6, loop = Some True\<rparr>),
      (''walk_right'', \<lparr>frames = [(2, 0), (2, 1), (2, 2), (2, 3)], duration = 0.4, loop = Some True\<rparr>),
      (''walk_left'', \<lparr>frames = [(3, 0), (3, 1), (3, 2), (3, 3)], duration = 0.4, loop = Some True\<rparr>),
      (''hurt_right'', \<lparr>frames = [(4, 0), (4, 1), (4, 2), (4, 3)], duration = 0.2, loop = Some False\<rparr>),
      (''hurt_left'', \<lparr>frames = [(5, 0), (5, 1), (5, 2), (5, 3)], duration = 0.2, loop = Some False\<rparr>)]"

definition t_sequence :: "string list" where
  "t_sequence = [''right'', ''left'', ''left'', ''right'', ''down'', ''up'']"

definition Boss_init :: "int \<Rightarrow> int \<Rightarrow> real \<Rightarrow> boss" where
  "Boss_init px py now =
     (let gx = (px div TILE_SIZE) * TILE_SIZE; gy = (py div TILE_SIZE) * TILE_SIZE
      in \<lparr>boss.x = gx, boss.y = gy, boss.start_x = gx, boss.start_y = gy,
          boss.facing = ''right'', boss.movement_type = ''boss_ai'', boss.state = ''moving'',
          boss.state_timer = 0, boss.max_health = 3, boss.current_health = 3,
          boss.boss_size = 32,
          boss.anim = play (AnimationManager_init BOSS_ANIMATIONS) ''walk_right'' True now,
          boss.move_cooldown = 0.3, boss.last_move = 0, boss.blocks_moved = 0,
          boss.target_blocks = 3, boss.current_sequence_index = 0,
          boss.current_direction = t_sequence ! 0, boss.defeated = False,
          boss.victory_timer = 0, boss.last_update = None\<rparr>)"

definition Boss_get_rect :: "boss \<Rightarrow> rect" where
  "Boss_get_rect b =
     \<lparr>rect_x = boss.x b, rect_y = boss.y b, rect_w = boss.boss_size b, rect_h = boss.boss_size b\<rparr>"

text \<open>\<^verbatim>\<open>GameStateManager._start_victory_freeze\<close>, on the two attributes it touches.\<close>

definition start_victory_freeze :: "globals \<Rightarrow> real \<Rightarrow> globals" where
  "start_victory_freeze g now =
     (if \<not> victory_freeze g then g\<lparr>victory_freeze := True, victory_freeze_timer := now\<rparr>
      else g)"

definition Boss_start_defeat :: "boss \<Rightarrow> real \<Rightarrow> globals \<Rightarrow> boss \<times> globals" where
  "Boss_start_defeat b now g =
     (let b1 = b\<lparr>boss.defeated := True, boss.state := ''dying'', boss.state_timer := now,
                 boss.victory_timer := now\<rparr>;
          g1 = g\<lparr>SCORE := SCORE g + 500\<rparr>;
          g2 = (if SCORE g1 > HIGH_SCORE g1
                then save_high_score (SCORE g1) (g1\<lparr>HIGH_SCORE := SCORE g1\<rparr>)
                else g1)
      in (b1, start_victory_freeze g2 now))"

text \<open>
  \<^verbatim>\<open>Boss.take_damage\<close>. The defeating hit returns right after \<^verbatim>\<open>_start_defeat\<close>; the hurt
  state, the hurt animation and \<^verbatim>\<open>SCORE += 25\<close> come after that return.
\<close>

definition Boss_take_damage :: "boss \<Rightarrow> real \<Rightarrow> globals \<Rightarrow> bool \<times> boss \<times> globals" where
  "Boss_take_damage b now g =
     (if boss.state b \<in> set [''hurt'', ''dying''] then (False, b, g)
      else
        (let b1 = b\<lparr>boss.current_health := boss.current_health b - 1\<rparr>
         in if boss.current_health b1 \<le> 0
            then (case Boss_start_defeat b1 now g of (b2, g2) \<Rightarrow> (True, b2, g2))
            else (True,
                  b1\<lparr>boss.state := ''hurt'', boss.state_timer := now,
                     boss.anim := play (boss.anim b1) (''hurt_'' @ boss.facing b1) True now\<rparr>,
                  g\<lparr>SCORE := SCORE g + 25\<rparr>)))"

definition Boss_start_current_direction_animation :: "boss \<Rightarrow> real \<Rightarrow> boss" where
  "Boss_start_current_direction_animation b now =
     (if boss.current_direction b \<in> set [''right'', ''down'']
      then b\<lparr>boss.facing := ''right'', boss.anim := play (boss.anim b) ''walk_right'' True now\<rparr>
      else b\<lparr>boss.facing := ''left'', boss.anim := play (boss.anim b) ''walk_left'' True now\<rparr>)"

definition Boss_next_direction :: "boss \<Rightarrow> real \<Rightarrow> boss" where
  "Boss_next_direction b now =
     (let i = (boss.current_sequence_index b + 1) mod length t_sequence
      in Boss_start_current_direction_animation
           (b\<lparr>boss.blocks_moved := 0, boss.current_sequence_index := i,
              boss.current_direction := t_sequence ! i\<rparr>) now)"

definition Boss_update_t_motion :: "boss \<Rightarrow> real \<Rightarrow> level_loader option \<Rightarrow> error + boss" where
  "Boss_update_t_motion b now loader =
     (if now - boss.last_move b < boss.move_cooldown b then Inr b
      else
        (let d = boss.current_direction b;
             dx = (if d = ''right'' then 1 else if d = ''left'' then - 1 else 0);
             dy = (if d = ''right'' then 0 else if d = ''left'' then 0
                   else if d = ''down'' then 1 else if d = ''up'' then - 1 else 0);
             new_x = boss.x b + dx * TILE_SIZE;
             new_y = boss.y b + dy * TILE_SIZE
         in case (case loader of
                    None \<Rightarrow> Inr True
                  | Some L \<Rightarrow>
                      (case get_level_size L of
                         (lvl_width, lvl_height) \<Rightarrow>
                           if new_x < 0 \<or> new_x > lvl_width - boss.boss_size b
                              \<or> new_y < 0 \<or> new_y > lvl_height - boss.boss_size b
                           then Inr False
                           else map_sum id Not (is_position_blocked L new_x new_y))) of
              Inl err \<Rightarrow> Inl err
            | Inr can_move \<Rightarrow>
                if can_move then
                  (let b1 = b\<lparr>boss.x := new_x, boss.y := new_y,
                               boss.blocks_moved := boss.blocks_moved b + 1,
                               boss.last_move := now\<rparr>
                   in if boss.blocks_moved b1 \<ge> boss.target_blocks b1
                      then Inr (Boss_next_direction b1 now)
                      else Inr b1)
                else Inr (Boss_next_direction b now)))"

definition Boss_anim_update :: "boss \<Rightarrow> real \<Rightarrow> error + boss" where
  "Boss_anim_update b now =
     (case AnimationManager_update (boss.anim b) now of
        Inl err \<Rightarrow> Inl err
      | Inr a \<Rightarrow> Inr (b\<lparr>boss.anim := a, boss.last_update := Some now\<rparr>))"

text \<open>
  \<^verbatim>\<open>Boss.update\<close>. Every path of a boss that is not defeated ends with
  \<^verbatim>\<open>self.anim.update()\<close> and \<^verbatim>\<open>self._last_update = now\<close>, which \<open>Boss_anim_update\<close> does.
\<close>

definition Boss_update :: "boss \<Rightarrow> real \<Rightarrow> level_loader option \<Rightarrow> error + boss" where
  "Boss_update b now loader =
     (if boss.defeated b then Inr b
      else if boss.state b = ''hurt'' then
        (if now - boss.state_timer b \<ge> 0.8
         then Boss_anim_update
                (Boss_start_current_direction_animation (b\<lparr>boss.state := ''moving''\<rparr>) now) now
         else Boss_anim_update b now)
      else if boss.state b = ''dying'' then Boss_anim_update b now
      else
        (case Boss_update_t_motion b now loader of
           Inl err \<Rightarrow> Inl err
         | Inr b1 \<Rightarrow> Boss_anim_update b1 now))"

definition Boss_should_be_removed :: "boss \<Rightarrow> real \<Rightarrow> bool" where
  "Boss_should_be_removed b now =
     (if \<not> boss.defeated b then False else now - boss.victory_timer b \<ge> 3.0)"


section \<open>Doors and pickups\<close>

definition Door_can_enter :: "door \<Rightarrow> globals \<Rightarrow> bool" where
  "Door_can_enter d g = (if \<not> door.locked d then True else HAS_KEY g)"

definition Door_check_collision :: "door \<Rightarrow> rect \<Rightarrow> bool" where
  "Door_check_collision d player_rect = colliderect (door.rect d) player_rect"

definition Pickup_ANIMATIONS :: "(string \<times> clip) list" where
  "Pickup_ANIMATIONS =
     [(''coin'', \<lparr>frames = [(0, 0), (0, 1), (0, 2), (0, 3)], duration = 0.6, loop = Some True\<rparr>),
      (''key'', \<lparr>frames = [(1, 0), (1, 1), (1, 2), (1, 3)], duration = 0.6, loop = Some True\<rparr>),
      (''heart'', \<lparr>frames = [(4, 0), (4, 1), (4, 2), (4, 3)], duration = 0.6, loop = Some True\<rparr>)]"

definition Pickup_init :: "int \<Rightarrow> int \<Rightarrow> string \<Rightarrow> real \<Rightarrow> pickup" where
  "Pickup_init px py ty now =
     (let gx = (px div TILE_SIZE) * TILE_SIZE; gy = (py div TILE_SIZE) * TILE_SIZE;
          ty' = (if map_of Pickup_ANIMATIONS ty \<noteq> None then ty else ''heart'')
      in \<lparr>pickup.x = gx, pickup.y = gy, pickup.pickup_type = ty', pickup.collected = False,
          pickup.anim = play (AnimationManager_init Pickup_ANIMATIONS) ty' True now\<rparr>)"

definition Pickup_get_rect :: "pickup \<Rightarrow> rect" where
  "Pickup_get_rect pk =
     \<lparr>rect_x = pickup.x pk, rect_y = pickup.y pk, rect_w = TILE_SIZE, rect_h = TILE_SIZE\<rparr>"

definition Pickup_should_be_removed :: "pickup \<Rightarrow> bool" where
  "Pickup_should_be_removed pk = pickup.collected pk"

definition collect_coin :: "globals \<Rightarrow> globals" where
  "collect_coin g = g\<lparr>SCORE := SCORE g + 10\<rparr>"

definition collect_heart :: "player \<Rightarrow> player" where
  "collect_heart p =
     (if player.health p < player.max_health p
      then p\<lparr>player.health := player.health p + 1\<rparr> else p)"

definition collect_key :: "globals \<Rightarrow> globals" where
  "collect_key g = g\<lparr>HAS_KEY := True\<rparr>"

definition Pickup_collect :: "pickup \<Rightarrow> player \<Rightarrow> globals \<Rightarrow> bool \<times> pickup \<times> player \<times> globals" where
  "Pickup_collect pk p g =
     (if pickup.collected pk then (False, pk, p, g)
      else
        (let pk1 = pk\<lparr>pickup.collected := True\<rparr>
         in if pickup.pickup_type pk1 = ''coin'' then (True, pk1, p, collect_coin g)
            else if pickup.pickup_type pk1 = ''heart'' then (True, pk1, collect_heart p, g)
            else if pickup.pickup_type pk1 = ''key'' then (True, pk1, p, collect_key g)
            else (True, pk1, p, g)))"


section \<open>Level loader: player movement, doors, collisions\<close>

definition move_player :: "level_loader \<Rightarrow> int \<Rightarrow> int \<Rightarrow> real \<Rightarrow> error + (bool \<times> level_loader)" where
  "move_player L dx dy current_time =
     (case player L of
        None \<Rightarrow> Inr (False, L)
      | Some p \<Rightarrow>
          (let new_x = player.x p + dx * TILE_SIZE; new_y = player.y p + dy * TILE_SIZE
           in case is_position_blocked L new_x new_y of
                Inl err \<Rightarrow> Inl err
              | Inr blocked \<Rightarrow>
                  if \<not> blocked then
                    (case get_level_size L of
                       (lvl_width, lvl_height) \<Rightarrow>
                         (case Player_move p dx dy lvl_width lvl_height current_time of
                            (r, p') \<Rightarrow> Inr (r, L\<lparr>player := Some p'\<rparr>)))
                  else Inr (False, L)))"

text \<open>
  The loop of \<^verbatim>\<open>try_enter_door\<close> over the doors: the first door that overlaps the player
  decides, and the method returns there in both branches.
\<close>

fun door_loop :: "door list \<Rightarrow> rect \<Rightarrow> level_loader \<Rightarrow> globals \<Rightarrow> real \<Rightarrow> globals \<times> level_loader" where
  "door_loop [] player_rect L g now = (g, L)"
| "door_loop (d # ds) player_rect L g now =
     (if Door_check_collision d player_rect then
        (if Door_can_enter d g then
           (let g' = (if door.locked d \<and> HAS_KEY g then g\<lparr>HAS_KEY := False\<rparr> else g)
            in (g', snd (start_transition L now)))
         else (g, L))
      else door_loop ds player_rect L g now)"

definition try_enter_door :: "level_loader \<Rightarrow> globals \<Rightarrow> real \<Rightarrow> globals \<times> level_loader" where
  "try_enter_door L g now =
     (case player L of
        None \<Rightarrow> (g, L)
      | Some p \<Rightarrow>
          if transitioning L then (g, L)
          else door_loop (doors L) (Player_get_rect p) L g now)"

definition get_sword_rect :: "level_loader \<Rightarrow> rect option" where
  "get_sword_rect L =
     (case player L of
        None \<Rightarrow> None
      | Some p \<Rightarrow>
          if player.state p \<noteq> ''attacking'' then None
          else if player.facing p = ''right''
          then Some \<lparr>rect_x = player.x p + TILE_SIZE, rect_y = player.y p,
                     rect_w = TILE_SIZE, rect_h = TILE_SIZE\<rparr>
          else Some \<lparr>rect_x = player.x p - TILE_SIZE, rect_y = player.y p,
                     rect_w = TILE_SIZE, rect_h = TILE_SIZE\<rparr>)"

text \<open>
  The three loops of \<^verbatim>\<open>_check_collisions\<close>, each ending at its \<^verbatim>\<open>break\<close>. The pickup loop
  collects the first pickup that is not collected and overlaps the player.
\<close>

fun pickup_loop :: "pickup list \<Rightarrow> rect \<Rightarrow> player \<Rightarrow> globals \<Rightarrow> pickup list \<times> player \<times> globals" where
  "pickup_loop [] player_rect p g = ([], p, g)"
| "pickup_loop (pk # pks) player_rect p g =
     (if \<not> pickup.collected pk \<and> colliderect player_rect (Pickup_get_rect pk)
      then (case Pickup_collect pk p g of (r, pk', p', g') \<Rightarrow> (pk' # pks, p', g'))
      else (case pickup_loop pks player_rect p g of (pks', p', g') \<Rightarrow> (pk # pks', p', g')))"

text \<open>
  The player-enemy loop: the first enemy or boss that is neither hurt nor dying and
  overlaps the player costs the player one point of damage.
\<close>

definition obj_hits :: "rect \<Rightarrow> obj \<Rightarrow> bool" where
  "obj_hits r ob =
     (case ob of
        PlayerObj \<Rightarrow> False
      | EnemyObj e \<Rightarrow> enemy.state e \<notin> set [''hurt'', ''dying''] \<and> colliderect r (Enemy_get_rect e)
      | BossObj b \<Rightarrow> boss.state b \<notin> set [''hurt'', ''dying''] \<and> colliderect r (Boss_get_rect b))"

fun enemy_loop :: "obj list \<Rightarrow> rect \<Rightarrow> player \<Rightarrow> real \<Rightarrow> player" where
  "enemy_loop [] player_rect p now = p"
| "enemy_loop (ob # obs) player_rect p now =
     (if obj_hits player_rect ob then snd (Player_take_damage p 1 now)
      else enemy_loop obs player_rect p now)"

text \<open>
  The sword loop: the first enemy or boss that is neither hurt nor dying and overlaps
  the sword takes damage; an enemy that is not a boss then starts to die at once.
\<close>

fun sword_loop :: "obj list \<Rightarrow> rect \<Rightarrow> real \<Rightarrow> globals \<Rightarrow> obj list \<times> globals" where
  "sword_loop [] sword_rect now g = ([], g)"
| "sword_loop (ob # obs) sword_rect now g =
     (if obj_hits sword_rect ob then
        (case ob of
           PlayerObj \<Rightarrow> (ob # obs, g)
         | EnemyObj e \<Rightarrow>
             (case Enemy_take_damage e now of
                (r, e1) \<Rightarrow> (EnemyObj (if r then Enemy_start_death e1 now else e1) # obs, g))
         | BossObj b \<Rightarrow>
             (case Boss_take_damage b now g of (r, b1, g1) \<Rightarrow> (BossObj b1 # obs, g1)))
      else (case sword_loop obs sword_rect now g of (obs', g') \<Rightarrow> (ob # obs', g')))"

definition check_collisions :: "level_loader \<Rightarrow> globals \<Rightarrow> real \<Rightarrow> level_loader \<times> globals" where
  "check_collisions L g now =
     (case player L of
        None \<Rightarrow> (L, g)
      | Some p0 \<Rightarrow>
          (let player_rect = Player_get_rect p0
           in case pickup_loop (pickups L) player_rect p0 g of
                (pks, p1, g1) \<Rightarrow>
                  (let p2 = (if player.invincible_timer p1 \<le> 0
                             then enemy_loop (objects L) player_rect p1 now else p1);
                       L2 = L\<lparr>pickups := pks, player := Some p2\<rparr>
                   in if player.state p2 = ''attacking'' then
                        (case get_sword_rect L2 of
                           None \<Rightarrow> (L2, g1)
                         | Some sword_rect \<Rightarrow>
                             (case sword_loop (objects L2) sword_rect now g1 of
                                (obs, g2) \<Rightarrow> (L2\<lparr>objects := obs\<rparr>, g2)))
                      else (L2, g1))))"


section \<open>Predicates, runs and example states\<close>

text \<open>
  \<^verbatim>\<open>play\<close> only ever selects a clip of the table, so the current clip of an animation
  manager is absent, the empty name, or a key of its table. \<^verbatim>\<open>update\<close> raises no
  \<^verbatim>\<open>KeyError\<close> in such a state.
\<close>

definition anim_ok :: "animation_manager \<Rightarrow> bool" where
  "anim_ok am =
     (case current_anim am of
        None \<Rightarrow> True
      | Some name \<Rightarrow> name = [] \<or> map_of (animations am) name \<noteq> None)"

text \<open>
  Predicates on animation managers: every clip of a table has at least one frame (as
  every clip of the tables in the source has); the frame index lies within the current
  clip; a clip loops unless its \<^verbatim>\<open>loop\<close> entry is \<^verbatim>\<open>False\<close>; a sequence of operations
  contains no \<^verbatim>\<open>play\<close>.
\<close>

definition clips_nonempty :: "(string \<times> clip) list \<Rightarrow> bool" where
  "clips_nonempty anims = list_all (\<lambda>(name, c). frames c \<noteq> []) anims"

definition frame_in_range :: "animation_manager \<Rightarrow> bool" where
  "frame_in_range am =
     (case current_anim am of
        None \<Rightarrow> True
      | Some name \<Rightarrow>
          (case map_of (animations am) name of
             None \<Rightarrow> False
           | Some c \<Rightarrow> 0 \<le> frame_idx am \<and> frame_idx am < int (length (frames c))))"

definition is_looping :: "clip \<Rightarrow> bool" where
  "is_looping c = (case loop c of None \<Rightarrow> True | Some b \<Rightarrow> b)"

definition no_play :: "anim_op list \<Rightarrow> bool" where
  "no_play ops = list_all (\<lambda>op. case op of Play name reset now \<Rightarrow> False | _ \<Rightarrow> True) ops"

text \<open>
  The sword of the player reaches a boss: the player is attacking (only then is there a
  sword rectangle), and the first object of the level that the sword hits is a boss.
\<close>

definition sword_hits_boss :: "level_loader \<Rightarrow> bool" where
  "sword_hits_boss L =
     (case get_sword_rect L of
        None \<Rightarrow> False
      | Some sr \<Rightarrow>
          (case find (obj_hits sr) (objects L) of
             Some (BossObj b) \<Rightarrow> True
           | _ \<Rightarrow> False))"

text \<open>
  A run of an enemy: \<^verbatim>\<open>Enemy.update\<close> called once per tick, at the instants of the list,
  with the same level; the run stops at the first exception.
\<close>

fun Enemy_updates :: "enemy \<Rightarrow> real list \<Rightarrow> level_loader option \<Rightarrow> error + enemy" where
  "Enemy_updates e [] loader = Inr e"
| "Enemy_updates e (t # ts) loader =
     (case Enemy_update e t loader of
        Inl err \<Rightarrow> Inl err
      | Inr e' \<Rightarrow> Enemy_updates e' ts loader)"

text \<open>
  The module-level state when a new game starts on a machine without a stored high
  score: \<^verbatim>\<open>SCORE = 0\<close>, \<^verbatim>\<open>HAS_KEY = False\<close>, and \<^verbatim>\<open>HIGH_SCORE = load_high_score()\<close> was
  evaluated at import time, which found no file and left 0 in the cache.
\<close>

definition new_game :: globals where
  "new_game =
     \<lparr>SCORE = 0, HAS_KEY = False, HIGH_SCORE = 0, highscore_file = Missing,
      data_writable = True, load_cache = Some 0, victory_freeze = False,
      victory_freeze_timer = 0\<rparr>"

text \<open>
  The states a boss can be in: defeated, dying, with no health left; or not defeated, not in
  the dying state, with 1 to 3 health points.
\<close>

definition boss_ok :: "boss \<Rightarrow> bool" where
  "boss_ok b =
     (if boss.defeated b
      then boss.state b = ''dying'' \<and> boss.current_health b = 0
      else boss.state b \<noteq> ''dying'' \<and> 1 \<le> boss.current_health b \<and> boss.current_health b \<le> 3)"

text \<open>
  A small level on which the theorems are tried: 20 by 15 free tiles of 16 pixels, the
  player on tile (2, 2), one enemy, one boss, an unlocked door away from the player and a
  locked door under the player, a heart away from the player and a coin under the player.
\<close>

definition example_level :: level_loader where
  "example_level =
     \<lparr>level_sequence = [''level-1'', ''level-last''], current_level_index = 0,
      objects = [PlayerObj, EnemyObj (Enemy_init 64 32 ''rat'' ''horizontal'' 2 0),
                 BossObj (Boss_init 96 96 0)],
      player = Some (Player_init 32 32 0),
      collision_grid = replicate 15 (replicate 20 False),
      doors = [\<lparr>door.rect = \<lparr>rect_x = 160, rect_y = 0, rect_w = 16, rect_h = 16\<rparr>, locked = False\<rparr>,
               \<lparr>door.rect = \<lparr>rect_x = 32, rect_y = 32, rect_w = 16, rect_h = 16\<rparr>, locked = True\<rparr>],
      pickups = [Pickup_init 64 64 ''heart'' 0, Pickup_init 32 32 ''coin'' 0],
      transitioning = False, transition_timer = 0, transition_duration = 0.5,
      level_width = 320, level_height = 240\<rparr>"


section \<open>Facts about the animation manager\<close>

lemma anim_ok_init: "anim_ok (AnimationManager_init t)"
  by (simp add: anim_ok_def AnimationManager_init_def)

lemma anim_ok_play: "anim_ok am \<Longrightarrow> anim_ok (play am n r now)"
  by (auto simp: anim_ok_def play_def split: option.splits)

lemma anim_ok_update:
  assumes "anim_ok am"
  shows "\<exists>am'. AnimationManager_update am now = Inr am' \<and> anim_ok am'
           \<and> animations am' = animations am \<and> current_anim am' = current_anim am"
  using assms
  by (auto simp: anim_ok_def AnimationManager_update_def Let_def split: option.splits)


section \<open>Frame index and the finished flag\<close>

lemma clips_nonempty_lookup:
  "clips_nonempty anims \<Longrightarrow> map_of anims name = Some c \<Longrightarrow> frames c \<noteq> []"
  by (auto simp: clips_nonempty_def list_all_iff dest: map_of_SomeD)

lemma frame_in_range_init: "frame_in_range (AnimationManager_init anims)"
  by (simp add: frame_in_range_def AnimationManager_init_def)

lemma frame_in_range_play:
  assumes "clips_nonempty (animations am)" "frame_in_range am"
  shows "frame_in_range (play am name reset now) \<and> animations (play am name reset now) = animations am"
  using assms clips_nonempty_lookup[of "animations am" name]
  by (auto simp: frame_in_range_def play_def split: option.splits)

lemma frame_in_range_set_paused:
  "frame_in_range am \<Longrightarrow> frame_in_range (set_paused am p) \<and> animations (set_paused am p) = animations am"
  by (auto simp: frame_in_range_def set_paused_def split: option.splits)

lemma frame_in_range_update:
  assumes "clips_nonempty (animations am)" "frame_in_range am"
  shows "\<exists>am'. AnimationManager_update am now = Inr am' \<and> frame_in_range am'
           \<and> animations am' = animations am"
proof (cases "current_anim am")
  case None
  with assms show ?thesis by (simp add: AnimationManager_update_def)
next
  case (Some name)
  with assms(2) obtain c where c: "map_of (animations am) name = Some c"
    and r: "0 \<le> frame_idx am" "frame_idx am < int (length (frames c))"
    by (auto simp: frame_in_range_def split: option.splits)
  from clips_nonempty_lookup[OF assms(1) c] have "0 < length (frames c)" by simp
  with Some c r assms(2) show ?thesis
    by (auto simp: AnimationManager_update_def Let_def frame_in_range_def)
qed

lemma run_ops_in_range:
  assumes "clips_nonempty (animations am)" "frame_in_range am"
  shows "\<exists>am'. run_ops am ops = Inr am' \<and> frame_in_range am' \<and> animations am' = animations am"
  using assms
proof (induction ops arbitrary: am)
  case Nil
  then show ?case by simp
next
  case (Cons op ops)
  show ?case
  proof (cases op)
    case (Play name reset now)
    from frame_in_range_play[OF Cons.prems, of name reset now]
    have "frame_in_range (play am name reset now)"
      "animations (play am name reset now) = animations am" by simp_all
    with Cons.IH[of "play am name reset now"] Cons.prems(1) Play show ?thesis by simp
  next
    case (Update now)
    from frame_in_range_update[OF Cons.prems, of now] obtain am1 where
      u: "AnimationManager_update am now = Inr am1" "frame_in_range am1"
         "animations am1 = animations am" by blast
    with Cons.IH[of am1] Cons.prems(1) Update show ?thesis by simp
  next
    case (SetPaused p)
    from frame_in_range_set_paused[OF Cons.prems(2), of p]
    have "frame_in_range (set_paused am p)" "animations (set_paused am p) = animations am"
      by simp_all
    with Cons.IH[of "set_paused am p"] Cons.prems(1) SetPaused show ?thesis by simp
  qed
qed

lemma update_finished: "finished am \<Longrightarrow> AnimationManager_update am now = Inr am"
  by (simp add: AnimationManager_update_def split: option.splits)

lemma run_ops_finished:
  assumes "finished am" "no_play ops"
  shows "\<exists>am'. run_ops am ops = Inr am' \<and> finished am' \<and> frame_idx am' = frame_idx am
           \<and> current_anim am' = current_anim am"
  using assms
proof (induction ops arbitrary: am)
  case Nil
  then show ?case by simp
next
  case (Cons op ops)
  then have np: "no_play ops" by (simp add: no_play_def)
  show ?case
  proof (cases op)
    case (Play name reset now)
    with Cons.prems(2) show ?thesis by (simp add: no_play_def)
  next
    case (Update now)
    with Cons.IH[OF Cons.prems(1) np] update_finished[OF Cons.prems(1), of now]
    show ?thesis by simp
  next
    case (SetPaused p)
    have "finished (set_paused am p)" using Cons.prems(1) by (simp add: set_paused_def)
    from Cons.IH[OF this np] SetPaused show ?thesis by (simp add: set_paused_def)
  qed
qed

lemma update_step:
  assumes "current_anim am = Some name" "name \<noteq> []" "map_of (animations am) name = Some c"
    "\<not> finished am" "\<not> paused am"
  shows "AnimationManager_update am now =
     Inr (if now - animation_manager.last_update am \<ge> duration c then
            (if frame_idx am + 1 \<ge> int (length (frames c)) then
               (if is_looping c
                then am\<lparr>frame_idx := 0, animation_manager.last_update := now\<rparr>
                else am\<lparr>frame_idx := int (length (frames c)) - 1, animation_manager.last_update := now,
                        finished := True\<rparr>)
             else am\<lparr>frame_idx := frame_idx am + 1, animation_manager.last_update := now\<rparr>)
          else am)"
  using assms by (simp add: AnimationManager_update_def Let_def is_looping_def)

text \<open>
  Claim C7. For a table whose clips all have at least one frame: after any sequence of
  \<^verbatim>\<open>play\<close>, \<^verbatim>\<open>update\<close> and \<^verbatim>\<open>set_paused\<close> on a new animation manager no exception was
  raised and the frame index lies in \<open>[0, frameCount)\<close> of the current clip, looping
  or not. An \<^verbatim>\<open>update\<close> that is due on the last frame wraps a looping clip to index 0, and
  clamps a clip that does not loop to its last index and sets \<open>finished\<close>. That is the
  only way \<open>finished\<close> becomes true. Once it is true, \<^verbatim>\<open>update\<close> and \<^verbatim>\<open>set_paused\<close>
  keep it true and keep the frame index; it becomes false again only in a \<^verbatim>\<open>play\<close> that
  restarts (a clip of the table, and another clip than the current one or a forced
  restart), which puts the index back to 0.
\<close>

theorem animation_invariants:
  assumes "clips_nonempty anims"
  shows "(\<exists>am. run_ops (AnimationManager_init anims) ops = Inr am \<and> frame_in_range am
            \<and> (\<forall>name c. current_anim am = Some name \<and> map_of anims name = Some c
                  \<longrightarrow> 0 \<le> frame_idx am \<and> frame_idx am < int (length (frames c))))
       \<and> (\<forall>am name c now.
             current_anim am = Some name \<and> name \<noteq> [] \<and> map_of (animations am) name = Some c
             \<and> \<not> finished am \<and> \<not> paused am \<and> now - animation_manager.last_update am \<ge> duration c
             \<and> frame_idx am + 1 \<ge> int (length (frames c))
             \<longrightarrow> AnimationManager_update am now =
                   Inr (if is_looping c then am\<lparr>frame_idx := 0, animation_manager.last_update := now\<rparr>
                        else am\<lparr>frame_idx := int (length (frames c)) - 1, animation_manager.last_update := now,
                                finished := True\<rparr>))
       \<and> (\<forall>am now am'. \<not> finished am \<and> AnimationManager_update am now = Inr am' \<and> finished am'
             \<longrightarrow> (\<exists>name c. current_anim am = Some name \<and> map_of (animations am) name = Some c
                    \<and> \<not> is_looping c \<and> frame_idx am + 1 \<ge> int (length (frames c))
                    \<and> frame_idx am' = int (length (frames c)) - 1))
       \<and> (\<forall>am ops'. finished am \<and> no_play ops'
             \<longrightarrow> (\<exists>am'. run_ops am ops' = Inr am' \<and> finished am' \<and> frame_idx am' = frame_idx am))
       \<and> (\<forall>am name reset now. finished am \<and> \<not> finished (play am name reset now)
             \<longrightarrow> map_of (animations am) name \<noteq> None \<and> (current_anim am \<noteq> Some name \<or> reset)
                 \<and> frame_idx (play am name reset now) = 0)"
proof -
  have i: "clips_nonempty (animations (AnimationManager_init anims))"
    "animations (AnimationManager_init anims) = anims"
    using assms by (simp_all add: AnimationManager_init_def)
  from run_ops_in_range[OF i(1) frame_in_range_init, of ops] i(2)
  obtain am where am: "run_ops (AnimationManager_init anims) ops = Inr am" "frame_in_range am"
    "animations am = anims" by auto
  have 1: "\<exists>am. run_ops (AnimationManager_init anims) ops = Inr am \<and> frame_in_range am
            \<and> (\<forall>name c. current_anim am = Some name \<and> map_of anims name = Some c
                  \<longrightarrow> 0 \<le> frame_idx am \<and> frame_idx am < int (length (frames c)))"
    using am by (intro exI[of _ am]) (auto simp: frame_in_range_def)
  have 2: "AnimationManager_update am now =
                   Inr (if is_looping c then am\<lparr>frame_idx := 0, animation_manager.last_update := now\<rparr>
                        else am\<lparr>frame_idx := int (length (frames c)) - 1, animation_manager.last_update := now,
                                finished := True\<rparr>)"
    if "current_anim am = Some name \<and> name \<noteq> [] \<and> map_of (animations am) name = Some c
             \<and> \<not> finished am \<and> \<not> paused am \<and> now - animation_manager.last_update am \<ge> duration c
             \<and> frame_idx am + 1 \<ge> int (length (frames c))" for am name c now
    using that update_step[of am name c now] by simp
  have 3: "\<exists>name c. current_anim am = Some name \<and> map_of (animations am) name = Some c
                    \<and> \<not> is_looping c \<and> frame_idx am + 1 \<ge> int (length (frames c))
                    \<and> frame_idx am' = int (length (frames c)) - 1"
    if "\<not> finished am \<and> AnimationManager_update am now = Inr am' \<and> finished am'" for am now am'
    using that
    by (auto simp: AnimationManager_update_def Let_def is_looping_def
          split: option.splits if_splits)
  have 4: "\<exists>am'. run_ops am ops' = Inr am' \<and> finished am' \<and> frame_idx am' = frame_idx am"
    if "finished am \<and> no_play ops'" for am ops'
    using that run_ops_finished[of am ops'] by blast
  have 5: "map_of (animations am) name \<noteq> None \<and> (current_anim am \<noteq> Some name \<or> reset)
                 \<and> frame_idx (play am name reset now) = 0"
    if "finished am \<and> \<not> finished (play am name reset now)" for am name reset now
    using that by (auto simp: play_def split: if_splits)
  show ?thesis using 1 2 3 4 5 by blast
qed

theorem animation_invariants_witness:
  "clips_nonempty Player_ANIMATIONS
   \<and> (\<exists>am. run_ops (AnimationManager_init Player_ANIMATIONS)
              [Play ''die_right'' True 0, Update 0.6, Update 1.2, Update 1.8, Update 2.4,
               SetPaused True, Update 9] = Inr am
           \<and> frame_in_range am \<and> frame_idx am = 2 \<and> finished am)"
proof -
  have c: "clips_nonempty Player_ANIMATIONS"
    by (simp add: clips_nonempty_def Player_ANIMATIONS_def)
  have e: "run_ops (AnimationManager_init Player_ANIMATIONS)
              [Play ''die_right'' True 0, Update 0.6, Update 1.2, Update 1.8, Update 2.4,
               SetPaused True, Update 9]
           = Inr \<lparr>animations = Player_ANIMATIONS, current_anim = Some ''die_right'',
                  frame_idx = 2, animation_manager.last_update = 1.8, finished = True,
                  paused = True\<rparr>"
    by (simp add: AnimationManager_init_def play_def AnimationManager_update_def set_paused_def
        Player_ANIMATIONS_def Let_def)
  show ?thesis
    using animation_invariants [OF c,
        of "[Play ''die_right'' True 0, Update 0.6, Update 1.2, Update 1.8, Update 2.4,
             SetPaused True, Update 9]"] c e
    by auto
qed


section \<open>Facts about the boss\<close>

lemma boss_ok_init: "boss_ok (Boss_init px py now)"
  by (simp add: boss_ok_def Boss_init_def Let_def)

lemma Boss_start_defeat_fields:
  "Boss_start_defeat b now g = (b', g') \<Longrightarrow>
     boss.defeated b' \<and> boss.state b' = ''dying'' \<and> boss.current_health b' = boss.current_health b
     \<and> boss.victory_timer b' = now \<and> boss.anim b' = boss.anim b \<and> SCORE g' = SCORE g + 500"
  by (auto simp: Boss_start_defeat_def Let_def start_victory_freeze_def save_high_score_def)

lemma boss_ok_take_damage:
  assumes "boss_ok b" and "Boss_take_damage b now g = (r, b', g')"
  shows "boss_ok b'"
proof (cases "boss.state b \<in> set [''hurt'', ''dying'']")
  case True
  with assms show ?thesis by (simp add: Boss_take_damage_def)
next
  case False
  then have nd: "\<not> boss.defeated b" using assms(1) by (auto simp: boss_ok_def split: if_splits)
  show ?thesis
  proof (cases "boss.current_health b - 1 \<le> 0")
    case True
    obtain b2 g2 where d: "Boss_start_defeat (b\<lparr>boss.current_health := boss.current_health b - 1\<rparr>) now g = (b2, g2)"
      by (cases "Boss_start_defeat (b\<lparr>boss.current_health := boss.current_health b - 1\<rparr>) now g") 
    from assms(2) False True d have "b' = b2" by (simp add: Boss_take_damage_def Let_def)
    moreover from Boss_start_defeat_fields[OF d] assms(1) nd True
    have "boss_ok b2" by (auto simp: boss_ok_def)
    ultimately show ?thesis by simp
  next
    case h: False
    with assms False nd show ?thesis
      by (auto simp: Boss_take_damage_def Let_def boss_ok_def)
  qed
qed

lemma Boss_anim_update_fields:
  "Boss_anim_update b now = Inr b' \<Longrightarrow>
     boss.defeated b' = boss.defeated b \<and> boss.state b' = boss.state b
     \<and> boss.current_health b' = boss.current_health b"
  by (auto simp: Boss_anim_update_def split: sum.splits)

lemma Boss_dir_anim_fields:
  "boss.defeated (Boss_start_current_direction_animation b now) = boss.defeated b
   \<and> boss.state (Boss_start_current_direction_animation b now) = boss.state b
   \<and> boss.current_health (Boss_start_current_direction_animation b now) = boss.current_health b"
  by (simp add: Boss_start_current_direction_animation_def)

lemma Boss_next_direction_fields:
  "boss.defeated (Boss_next_direction b now) = boss.defeated b
   \<and> boss.state (Boss_next_direction b now) = boss.state b
   \<and> boss.current_health (Boss_next_direction b now) = boss.current_health b"
  by (simp add: Boss_next_direction_def Let_def Boss_dir_anim_fields)

lemma Boss_t_motion_fields:
  "Boss_update_t_motion b now L = Inr b' \<Longrightarrow>
     boss.defeated b' = boss.defeated b \<and> boss.state b' = boss.state b
     \<and> boss.current_health b' = boss.current_health b"
  unfolding Boss_update_t_motion_def Let_def
  by (auto simp: Boss_next_direction_fields split: if_splits sum.splits option.splits prod.splits)

lemma boss_ok_update:
  assumes "boss_ok b" and "Boss_update b now L = Inr b'"
  shows "boss_ok b'"
proof (cases "boss.defeated b")
  case True
  with assms show ?thesis by (simp add: Boss_update_def)
next
  case nd: False
  then have s: "boss.state b \<noteq> ''dying''" and h: "1 \<le> boss.current_health b" "boss.current_health b \<le> 3"
    using assms(1) by (auto simp: boss_ok_def)
  show ?thesis
  proof (cases "boss.state b = ''hurt''")
    case True
    show ?thesis
    proof (cases "now - boss.state_timer b \<ge> 0.8")
      case t: True
      with True nd assms(2)
      have "Boss_anim_update (Boss_start_current_direction_animation (b\<lparr>boss.state := ''moving''\<rparr>) now) now = Inr b'"
        by (simp add: Boss_update_def)
      from Boss_anim_update_fields[OF this] nd h show ?thesis
        by (simp add: Boss_dir_anim_fields boss_ok_def)
    next
      case f: False
      with True nd assms(2) have "Boss_anim_update b now = Inr b'" by (simp add: Boss_update_def)
      from Boss_anim_update_fields[OF this] nd h s show ?thesis by (simp add: boss_ok_def)
    qed
  next
    case False
    with nd s assms(2) obtain b1 where m: "Boss_update_t_motion b now L = Inr b1"
      and a: "Boss_anim_update b1 now = Inr b'"
      by (auto simp: Boss_update_def split: sum.splits)
    from Boss_t_motion_fields[OF m] Boss_anim_update_fields[OF a] nd s h
    show ?thesis by (simp add: boss_ok_def)
  qed
qed

lemma Boss_hit_nonlethal:
  assumes "boss.state b \<noteq> ''hurt''" "boss.state b \<noteq> ''dying''" "1 < boss.current_health b"
  shows "Boss_take_damage b now g =
           (True,
            b\<lparr>boss.current_health := boss.current_health b - 1, boss.state := ''hurt'',
              boss.state_timer := now,
              boss.anim := play (boss.anim b) (''hurt_'' @ boss.facing b) True now\<rparr>,
            g\<lparr>SCORE := SCORE g + 25\<rparr>)"
  using assms by (simp add: Boss_take_damage_def Let_def)

lemma Boss_hit_lethal:
  assumes "boss.state b \<noteq> ''hurt''" "boss.state b \<noteq> ''dying''" "boss.current_health b \<le> 1"
  shows "\<exists>b' g'. Boss_take_damage b now g = (True, b', g')
           \<and> SCORE g' = SCORE g + 500 \<and> boss.defeated b' \<and> boss.state b' = ''dying''
           \<and> boss.victory_timer b' = now
           \<and> boss.current_health b' = boss.current_health b - 1
           \<and> victory_freeze g'"
  using assms
  by (simp add: Boss_take_damage_def Let_def Boss_start_defeat_def start_victory_freeze_def
        save_high_score_def)

lemma Boss_recover:
  assumes "boss.state b = ''hurt''" "\<not> boss.defeated b" "now - boss.state_timer b \<ge> 0.8"
    "anim_ok (boss.anim b)"
  shows "\<exists>b'. Boss_update b now L = Inr b' \<and> boss.state b' = ''moving''
           \<and> boss.current_health b' = boss.current_health b \<and> \<not> boss.defeated b'
           \<and> anim_ok (boss.anim b')
           \<and> boss.current_sequence_index b' = boss.current_sequence_index b
           \<and> boss.current_direction b' = boss.current_direction b
           \<and> boss.blocks_moved b' = boss.blocks_moved b"
proof -
  let ?b1 = "Boss_start_current_direction_animation (b\<lparr>boss.state := ''moving''\<rparr>) now"
  have ok1: "anim_ok (boss.anim ?b1)"
    using assms(4) by (simp add: Boss_start_current_direction_animation_def anim_ok_play)
  from anim_ok_update[OF ok1, of now] obtain a where
    a: "AnimationManager_update (boss.anim ?b1) now = Inr a" and oka: "anim_ok a" by blast
  have "Boss_update b now L = Inr (?b1\<lparr>boss.anim := a, boss.last_update := Some now\<rparr>)"
    using assms(1-3) a by (simp add: Boss_update_def Boss_anim_update_def)
  then show ?thesis
    using assms(2) oka by (simp add: Boss_start_current_direction_animation_def)
qed


section \<open>The boss scenario: three hits\<close>

text \<open>
  Claim C1, as amended. A boss with 3 health that is hit three times, recovering from
  the hurt state (0.8 s) after the first and the second hit, is accepted each time. The
  first and the second hit add 25 to the score each; the third hit defeats the boss and
  adds 500 and nothing else, because \<^verbatim>\<open>take_damage\<close> returns right after
  \<^verbatim>\<open>_start_defeat\<close>: 550 in all. The defeat starts the victory freeze. The boss is to be
  removed at the instants that lie 3.0 s or more after the defeat, and at no instant
  before the defeat.
\<close>

theorem boss_three_hits_amended:
  assumes "boss.current_health b0 = 3" "boss.state b0 \<noteq> ''hurt''" "boss.state b0 \<noteq> ''dying''"
    and "\<not> boss.defeated b0" "anim_ok (boss.anim b0)"
    and "u1 - t1 \<ge> 0.8" "u2 - t2 \<ge> 0.8"
  shows "\<exists>b1 g1 b1' b2 g2 b2' b3 g3.
           Boss_take_damage b0 t1 g0 = (True, b1, g1) \<and> SCORE g1 = SCORE g0 + 25
         \<and> Boss_update b1 u1 L = Inr b1'
         \<and> Boss_take_damage b1' t2 g1 = (True, b2, g2) \<and> SCORE g2 = SCORE g1 + 25
         \<and> Boss_update b2 u2 L = Inr b2'
         \<and> Boss_take_damage b2' t3 g2 = (True, b3, g3) \<and> SCORE g3 = SCORE g2 + 500
         \<and> SCORE g3 = SCORE g0 + 550
         \<and> boss.current_health b3 = 0 \<and> boss.state b3 = ''dying'' \<and> boss.defeated b3
         \<and> victory_freeze g3
         \<and> (\<forall>now. Boss_should_be_removed b3 now \<longleftrightarrow> now - t3 \<ge> 3.0)
         \<and> (\<forall>now. \<not> Boss_should_be_removed b0 now \<and> \<not> Boss_should_be_removed b1 now
                  \<and> \<not> Boss_should_be_removed b2 now)"
proof -
  define b1 where "b1 = b0\<lparr>boss.current_health := boss.current_health b0 - 1, boss.state := ''hurt'',
              boss.state_timer := t1,
              boss.anim := play (boss.anim b0) (''hurt_'' @ boss.facing b0) True t1\<rparr>"
  have h1: "Boss_take_damage b0 t1 g0 = (True, b1, g0\<lparr>SCORE := SCORE g0 + 25\<rparr>)"
    unfolding b1_def using assms(1-3) by (intro Boss_hit_nonlethal) simp_all
  have b1: "boss.state b1 = ''hurt''" "\<not> boss.defeated b1" "u1 - boss.state_timer b1 \<ge> 0.8"
    "anim_ok (boss.anim b1)" "boss.current_health b1 = 2"
    using assms by (simp_all add: b1_def anim_ok_play)
  from Boss_recover[OF b1(1-4), of L] obtain b1' where
    r1: "Boss_update b1 u1 L = Inr b1'" and b1': "boss.state b1' = ''moving''"
      "boss.current_health b1' = 2" "\<not> boss.defeated b1'" "anim_ok (boss.anim b1')"
    using b1(5) by auto
  define b2 where "b2 = b1'\<lparr>boss.current_health := boss.current_health b1' - 1, boss.state := ''hurt'',
              boss.state_timer := t2,
              boss.anim := play (boss.anim b1') (''hurt_'' @ boss.facing b1') True t2\<rparr>"
  have h2: "Boss_take_damage b1' t2 (g0\<lparr>SCORE := SCORE g0 + 25\<rparr>)
              = (True, b2, g0\<lparr>SCORE := SCORE g0 + 25 + 25\<rparr>)"
    unfolding b2_def using b1' by (subst Boss_hit_nonlethal) simp_all
  have b2: "boss.state b2 = ''hurt''" "\<not> boss.defeated b2" "u2 - boss.state_timer b2 \<ge> 0.8"
    "anim_ok (boss.anim b2)" "boss.current_health b2 = 1"
    using assms b1' by (simp_all add: b2_def anim_ok_play)
  from Boss_recover[OF b2(1-4), of L] obtain b2' where
    r2: "Boss_update b2 u2 L = Inr b2'" and b2': "boss.state b2' = ''moving''"
      "boss.current_health b2' = 1" "\<not> boss.defeated b2'"
    using b2(5) by auto
  from Boss_hit_lethal[of b2' t3 "g0\<lparr>SCORE := SCORE g0 + 25 + 25\<rparr>"] b2'
  obtain b3 g3 where h3: "Boss_take_damage b2' t3 (g0\<lparr>SCORE := SCORE g0 + 25 + 25\<rparr>) = (True, b3, g3)"
    and b3: "SCORE g3 = SCORE g0 + 25 + 25 + 500" "boss.defeated b3" "boss.state b3 = ''dying''"
      "boss.victory_timer b3 = t3" "boss.current_health b3 = 0" "victory_freeze g3"
    by auto
  have rem: "\<forall>now. Boss_should_be_removed b3 now \<longleftrightarrow> now - t3 \<ge> 3.0"
    using b3 by (simp add: Boss_should_be_removed_def)
  have nrem: "\<forall>now. \<not> Boss_should_be_removed b0 now \<and> \<not> Boss_should_be_removed b1 now
                  \<and> \<not> Boss_should_be_removed b2 now"
    using assms(4) b1(2) b2(2) by (simp add: Boss_should_be_removed_def)
  show ?thesis
    using h1 r1 h2 r2 h3 b3 rem nrem by (intro exI[of _ b1] exI[of _ "g0\<lparr>SCORE := SCORE g0 + 25\<rparr>"]
        exI[of _ b1'] exI[of _ b2] exI[of _ "g0\<lparr>SCORE := SCORE g0 + 25 + 25\<rparr>"] exI[of _ b2']
        exI[of _ b3] exI[of _ g3]) simp
qed

theorem boss_three_hits_amended_witness:
  "\<exists>b1 g1 b1' b2 g2 b2' b3 g3.
           Boss_take_damage (Boss_init 0 0 0) 1 new_game = (True, b1, g1) \<and> SCORE g1 = SCORE new_game + 25
         \<and> Boss_update b1 2 None = Inr b1'
         \<and> Boss_take_damage b1' 3 g1 = (True, b2, g2) \<and> SCORE g2 = SCORE g1 + 25
         \<and> Boss_update b2 4 None = Inr b2'
         \<and> Boss_take_damage b2' 5 g2 = (True, b3, g3) \<and> SCORE g3 = SCORE g2 + 500
         \<and> SCORE g3 = SCORE new_game + 550
         \<and> boss.current_health b3 = 0 \<and> boss.state b3 = ''dying'' \<and> boss.defeated b3
         \<and> victory_freeze g3
         \<and> (\<forall>now. Boss_should_be_removed b3 now \<longleftrightarrow> now - 5 \<ge> 3.0)
         \<and> (\<forall>now. \<not> Boss_should_be_removed (Boss_init 0 0 0) now \<and> \<not> Boss_should_be_removed b1 now
                  \<and> \<not> Boss_should_be_removed b2 now)"
  by (rule boss_three_hits_amended)
     (simp_all add: Boss_init_def Let_def anim_ok_def play_def AnimationManager_init_def
        BOSS_ANIMATIONS_def)

text \<open>
  The claim as stated fails: counted from a fresh game, the score after the three
  accepted hits is 25, 50 and 550, not 25 + 25 + 25 + 500.
\<close>

theorem boss_three_hits_counterexample:
  "(case Boss_take_damage (Boss_init 0 0 0) 1 new_game of (r1, b1, g1) \<Rightarrow>
    case Boss_update b1 2 None of Inl err \<Rightarrow> False | Inr b1' \<Rightarrow>
    case Boss_take_damage b1' 3 g1 of (r2, b2, g2) \<Rightarrow>
    case Boss_update b2 4 None of Inl err \<Rightarrow> False | Inr b2' \<Rightarrow>
    case Boss_take_damage b2' 5 g2 of (r3, b3, g3) \<Rightarrow>
      r1 \<and> r2 \<and> r3 \<and> boss.current_health b3 = 0
      \<and> SCORE g1 = 25 \<and> SCORE g2 = 50 \<and> SCORE g3 = 550 \<and> SCORE g3 \<noteq> 25 + 25 + 25 + 500)"
  by code_simp


section \<open>Health under damage\<close>

text \<open>
  Claim C2, as amended. An accepted \<^verbatim>\<open>Player.take_damage(n)\<close> sets the health to
  \<open>health - n\<close> and does not clamp it: the new health is non-negative exactly when
  \<open>n \<le> health\<close>, the player is dying when the new health is 0 or less and hurt otherwise.
  The boss loses exactly one point per accepted hit. Its states are those of \<open>boss_ok\<close>,
  which holds for a new boss and is kept by \<^verbatim>\<open>take_damage\<close> and \<^verbatim>\<open>update\<close>: the boss's
  health stays within 0..3, and it is 0 exactly in the dying state.
\<close>

theorem damage_health_amended:
  "(player.invincible_timer p \<le> 0 \<and> player.state p \<noteq> ''hurt'' \<and> player.state p \<noteq> ''dying'' \<longrightarrow>
      (\<exists>p'. Player_take_damage p n now = (True, p')
          \<and> player.health p' = player.health p - n
          \<and> (0 \<le> player.health p' \<longleftrightarrow> n \<le> player.health p)
          \<and> (player.health p' \<le> 0 \<longrightarrow> player.state p' = ''dying'')
          \<and> (0 < player.health p' \<longrightarrow> player.state p' = ''hurt'')))
   \<and> boss_ok (Boss_init px py t0)
   \<and> (boss_ok b \<and> Boss_take_damage b now g = (r, b', g') \<longrightarrow>
        boss_ok b' \<and> 0 \<le> boss.current_health b' \<and> boss.current_health b' \<le> 3
        \<and> (r \<longrightarrow> boss.current_health b' = boss.current_health b - 1)
        \<and> (boss.current_health b' = 0 \<longleftrightarrow> boss.state b' = ''dying''))
   \<and> (boss_ok b \<and> Boss_update b now L = Inr b'' \<longrightarrow> boss_ok b'')"
proof (intro conjI impI)
  assume "player.invincible_timer p \<le> 0 \<and> player.state p \<noteq> ''hurt'' \<and> player.state p \<noteq> ''dying''"
  then show "\<exists>p'. Player_take_damage p n now = (True, p')
          \<and> player.health p' = player.health p - n
          \<and> (0 \<le> player.health p' \<longleftrightarrow> n \<le> player.health p)
          \<and> (player.health p' \<le> 0 \<longrightarrow> player.state p' = ''dying'')
          \<and> (0 < player.health p' \<longrightarrow> player.state p' = ''hurt'')"
    by (auto simp: Player_take_damage_def Let_def Player_start_death_def Player_start_hurt_def)
next
  show "boss_ok (Boss_init px py t0)" by (rule boss_ok_init)
next
  assume a: "boss_ok b \<and> Boss_take_damage b now g = (r, b', g')"
  then have ok: "boss_ok b'" using boss_ok_take_damage by blast
  then show "boss_ok b'" .
  from ok show "0 \<le> boss.current_health b'" "boss.current_health b' \<le> 3"
    by (auto simp: boss_ok_def split: if_splits)
  from ok show "boss.current_health b' = 0 \<longleftrightarrow> boss.state b' = ''dying''"
    by (auto simp: boss_ok_def split: if_splits)
  assume r
  with a show "boss.current_health b' = boss.current_health b - 1"
    by (auto simp: Boss_take_damage_def Let_def dest: Boss_start_defeat_fields
          split: if_splits prod.splits)
next
  assume "boss_ok b \<and> Boss_update b now L = Inr b''"
  then show "boss_ok b''" using boss_ok_update by blast
qed

theorem damage_health_amended_witness:
  "(\<exists>p'. Player_take_damage (Player_init 0 0 0) 1 7 = (True, p') \<and> player.health p' = 2
        \<and> player.state p' = ''hurt'')
   \<and> boss_ok (Boss_init 0 0 0)
   \<and> boss_ok (fst (snd (Boss_take_damage (Boss_init 0 0 0) 7 new_game)))
   \<and> boss.current_health (fst (snd (Boss_take_damage (Boss_init 0 0 0) 7 new_game))) = 2
   \<and> boss_ok (projr (Boss_update (Boss_init 0 0 0) 7 None))"
proof -
  have u: "Boss_update (Boss_init 0 0 0) 7 None = Inr (projr (Boss_update (Boss_init 0 0 0) 7 None))"
    by code_simp
  have t: "Boss_take_damage (Boss_init 0 0 0) 7 new_game
         = (True, fst (snd (Boss_take_damage (Boss_init 0 0 0) 7 new_game)),
            snd (snd (Boss_take_damage (Boss_init 0 0 0) 7 new_game)))"
    by (simp add: Boss_take_damage_def Boss_init_def Let_def)
  have h: "boss.current_health (Boss_init 0 0 0) = 3" "player.health (Player_init 0 0 0) = 3"
    "player.invincible_timer (Player_init 0 0 0) \<le> 0 \<and> player.state (Player_init 0 0 0) \<noteq> ''hurt''
      \<and> player.state (Player_init 0 0 0) \<noteq> ''dying''"
    by (simp_all add: Boss_init_def Player_init_def Let_def)
  show ?thesis
    using damage_health_amended [where p = "Player_init 0 0 0" and n = 1 and now = 7
        and px = 0 and py = 0 and ?t0.0 = 0 and b = "Boss_init 0 0 0" and g = new_game
        and r = True and b' = "fst (snd (Boss_take_damage (Boss_init 0 0 0) 7 new_game))"
        and g' = "snd (snd (Boss_take_damage (Boss_init 0 0 0) 7 new_game))"
        and L = None and b'' = "projr (Boss_update (Boss_init 0 0 0) 7 None)"]
      u t h
    by auto
qed

text \<open>
  The claim as stated fails for the player: a healthy player that takes 5 points of
  damage is left with a health of -2.
\<close>

theorem damage_health_counterexample:
  "fst (Player_take_damage (Player_init 0 0 0) 5 1)
   \<and> player.health (snd (Player_take_damage (Player_init 0 0 0) 5 1)) = - 2
   \<and> player.health (snd (Player_take_damage (Player_init 0 0 0) 5 1)) < 0"
  by (simp add: Player_take_damage_def Player_init_def Let_def Player_start_death_def)


section \<open>Rejected moves of the player\<close>

lemma Player_move_cases:
  "Player_move p dx dy w h t =
     (if player.state p \<in> set [''attacking'', ''hurt'', ''dying''] \<or> t - player.last_move p < 0.15
      then (False, p)
      else if 0 \<le> player.x p + dx * TILE_SIZE \<and> player.x p + dx * TILE_SIZE \<le> w - TILE_SIZE
              \<and> 0 \<le> player.y p + dy * TILE_SIZE \<and> player.y p + dy * TILE_SIZE \<le> h - TILE_SIZE
      then (True, snd (Player_move p dx dy w h t))
      else (False, if 0 < dx then p\<lparr>player.facing := ''right''\<rparr>
                   else if dx < 0 then p\<lparr>player.facing := ''left''\<rparr> else p))"
  by (auto simp: Player_move_def Player_can_move_def MOVEMENT_COOLDOWN_def Let_def)

lemma out_of_bounds_blocked:
  assumes "TILE_SIZE dvd px" "TILE_SIZE dvd py"
    and "level_width L = TILE_SIZE * int (length (collision_grid L ! 0))"
    and "level_height L = TILE_SIZE * int (length (collision_grid L))"
    and "\<not> (0 \<le> px \<and> px \<le> level_width L - TILE_SIZE
            \<and> 0 \<le> py \<and> py \<le> level_height L - TILE_SIZE)"
  shows "is_position_blocked L px py = Inr True"
proof -
  obtain kx ky where k: "px = 16 * kx" "py = 16 * ky"
    using assms(1,2) by (auto simp: TILE_SIZE_def dvd_def)
  have "kx < 0 \<or> ky < 0 \<or> ky \<ge> int (length (collision_grid L))
          \<or> kx \<ge> int (length (collision_grid L ! 0))"
    using assms(3,4,5) k by (simp add: TILE_SIZE_def) arith
  then show ?thesis
    using k by (auto simp: is_position_blocked_def Let_def TILE_SIZE_def)
qed

text \<open>
  Claim C3. \<^verbatim>\<open>LevelLoader.move_player\<close> rejects a move onto a blocked tile and changes
  nothing; every position outside the collision grid counts as blocked. \<^verbatim>\<open>Player.move\<close>
  rejects a move and changes nothing while the player is attacking, hurt or dying, or
  when less than 0.15 s have passed since the last accepted move, and so does
  \<^verbatim>\<open>move_player\<close> in these cases. For a tile-aligned player (as \<^verbatim>\<open>Player.__init__\<close> and
  every accepted move leave it) in a level whose pixel size is that of its collision
  grid (both come from the dimensions of the same map when a level is loaded), a
  destination outside the level bounds is outside the grid, so \<^verbatim>\<open>move_player\<close> rejects it and changes nothing, and every rejection by
  \<^verbatim>\<open>move_player\<close> leaves the whole level, player included, as it was. Whenever
  \<^verbatim>\<open>Player.move\<close> itself rejects a move, the position, the rectangle, the behaviour state
  and the time of the last move are unchanged and no field other than \<open>facing\<close> differs;
  in its own bounds check, which \<^verbatim>\<open>move_player\<close> does not reach under the conditions
  above, \<open>facing\<close> has been set from the sign of \<open>dx\<close>.
\<close>

theorem move_rejected:
  "(is_position_blocked L (player.x p + dx * TILE_SIZE) (player.y p + dy * TILE_SIZE) = Inr True
      \<and> player L = Some p
      \<longrightarrow> move_player L dx dy t = Inr (False, L))
   \<and> (player.state p \<in> set [''attacking'', ''hurt'', ''dying''] \<or> t - player.last_move p < 0.15
      \<longrightarrow> Player_move p dx dy w h t = (False, p))
   \<and> (is_position_blocked L (player.x p + dx * TILE_SIZE) (player.y p + dy * TILE_SIZE) = Inr False
      \<and> player L = Some p
      \<and> (player.state p \<in> set [''attacking'', ''hurt'', ''dying''] \<or> t - player.last_move p < 0.15)
      \<longrightarrow> move_player L dx dy t = Inr (False, L))
   \<and> (qx div TILE_SIZE < 0 \<or> qy div TILE_SIZE < 0
        \<or> qy div TILE_SIZE \<ge> int (length (collision_grid L))
        \<or> qx div TILE_SIZE \<ge> int (length (collision_grid L ! 0))
      \<longrightarrow> is_position_blocked L qx qy = Inr True)
   \<and> (player L = Some p
      \<and> TILE_SIZE dvd player.x p \<and> TILE_SIZE dvd player.y p
      \<and> level_width L = TILE_SIZE * int (length (collision_grid L ! 0))
      \<and> level_height L = TILE_SIZE * int (length (collision_grid L))
      \<and> \<not> (0 \<le> player.x p + dx * TILE_SIZE
            \<and> player.x p + dx * TILE_SIZE \<le> level_width L - TILE_SIZE
            \<and> 0 \<le> player.y p + dy * TILE_SIZE
            \<and> player.y p + dy * TILE_SIZE \<le> level_height L - TILE_SIZE)
      \<longrightarrow> move_player L dx dy t = Inr (False, L))
   \<and> (player L = Some p
      \<and> TILE_SIZE dvd player.x p \<and> TILE_SIZE dvd player.y p
      \<and> level_width L = TILE_SIZE * int (length (collision_grid L ! 0))
      \<and> level_height L = TILE_SIZE * int (length (collision_grid L))
      \<and> move_player L dx dy t = Inr (False, L')
      \<longrightarrow> L' = L)
   \<and> (fst (Player_move p dx dy w h t) = False
      \<longrightarrow> player.x (snd (Player_move p dx dy w h t)) = player.x p
        \<and> player.y (snd (Player_move p dx dy w h t)) = player.y p
        \<and> player.rect (snd (Player_move p dx dy w h t)) = player.rect p
        \<and> player.state (snd (Player_move p dx dy w h t)) = player.state p
        \<and> player.last_move (snd (Player_move p dx dy w h t)) = player.last_move p
        \<and> snd (Player_move p dx dy w h t)
            = p\<lparr>player.facing := player.facing (snd (Player_move p dx dy w h t))\<rparr>)
   \<and> (\<not> (0 \<le> player.x p + dx * TILE_SIZE \<and> player.x p + dx * TILE_SIZE \<le> w - TILE_SIZE
          \<and> 0 \<le> player.y p + dy * TILE_SIZE \<and> player.y p + dy * TILE_SIZE \<le> h - TILE_SIZE)
      \<longrightarrow> Player_move p dx dy w h t
            = (False,
               if player.state p \<in> set [''attacking'', ''hurt'', ''dying'']
                  \<or> t - player.last_move p < 0.15 then p
               else if 0 < dx then p\<lparr>player.facing := ''right''\<rparr>
               else if dx < 0 then p\<lparr>player.facing := ''left''\<rparr>
               else p))"
proof -
  have 1: "move_player L dx dy t = Inr (False, L)"
    if "is_position_blocked L (player.x p + dx * TILE_SIZE) (player.y p + dy * TILE_SIZE) = Inr True
      \<and> player L = Some p"
    using that by (simp add: move_player_def Let_def)
  have 2: "Player_move p dx dy w' h' t = (False, p)"
    if "player.state p \<in> set [''attacking'', ''hurt'', ''dying''] \<or> t - player.last_move p < 0.15"
    for w' h'
    using that by (auto simp: Player_move_def Player_can_move_def MOVEMENT_COOLDOWN_def)
  have 3: "move_player L dx dy t = Inr (False, L)"
    if a: "is_position_blocked L (player.x p + dx * TILE_SIZE) (player.y p + dy * TILE_SIZE) = Inr False
      \<and> player L = Some p
      \<and> (player.state p \<in> set [''attacking'', ''hurt'', ''dying''] \<or> t - player.last_move p < 0.15)"
  proof -
    have "Player_move p dx dy (level_width L) (level_height L) t = (False, p)"
      using a by (intro 2) simp
    moreover have "L\<lparr>player := Some p\<rparr> = L" using a by simp
    ultimately show ?thesis
      using a by (simp add: move_player_def Let_def get_level_size_def)
  qed
  have 4: "is_position_blocked L qx qy = Inr True"
    if "qx div TILE_SIZE < 0 \<or> qy div TILE_SIZE < 0
        \<or> qy div TILE_SIZE \<ge> int (length (collision_grid L))
        \<or> qx div TILE_SIZE \<ge> int (length (collision_grid L ! 0))"
    using that by (auto simp: is_position_blocked_def Let_def)
  have al: "TILE_SIZE dvd player.x p + dx * TILE_SIZE \<and> TILE_SIZE dvd player.y p + dy * TILE_SIZE"
    if "TILE_SIZE dvd player.x p" "TILE_SIZE dvd player.y p"
    using that by simp
  have 5: "move_player L dx dy t = Inr (False, L)"
    if a: "player L = Some p
      \<and> TILE_SIZE dvd player.x p \<and> TILE_SIZE dvd player.y p
      \<and> level_width L = TILE_SIZE * int (length (collision_grid L ! 0))
      \<and> level_height L = TILE_SIZE * int (length (collision_grid L))
      \<and> \<not> (0 \<le> player.x p + dx * TILE_SIZE
            \<and> player.x p + dx * TILE_SIZE \<le> level_width L - TILE_SIZE
            \<and> 0 \<le> player.y p + dy * TILE_SIZE
            \<and> player.y p + dy * TILE_SIZE \<le> level_height L - TILE_SIZE)"
  proof -
    have "is_position_blocked L (player.x p + dx * TILE_SIZE) (player.y p + dy * TILE_SIZE) = Inr True"
      using a al by (intro out_of_bounds_blocked) blast+
    then show ?thesis using a 1 by blast
  qed
  have 6: "L' = L"
    if a: "player L = Some p
      \<and> TILE_SIZE dvd player.x p \<and> TILE_SIZE dvd player.y p
      \<and> level_width L = TILE_SIZE * int (length (collision_grid L ! 0))
      \<and> level_height L = TILE_SIZE * int (length (collision_grid L))
      \<and> move_player L dx dy t = Inr (False, L')"
  proof (cases "0 \<le> player.x p + dx * TILE_SIZE
            \<and> player.x p + dx * TILE_SIZE \<le> level_width L - TILE_SIZE
            \<and> 0 \<le> player.y p + dy * TILE_SIZE
            \<and> player.y p + dy * TILE_SIZE \<le> level_height L - TILE_SIZE")
    case False
    with a 5 have "move_player L dx dy t = Inr (False, L)" by blast
    with a show ?thesis by simp
  next
    case True
    let ?r = "Player_move p dx dy (level_width L) (level_height L) t"
    have pm: "?r = (False, p) \<or> fst ?r = True"
      using True by (subst (1 2) Player_move_cases) auto
    have lp: "L\<lparr>player := Some p\<rparr> = L" using a by simp
    from a have mp: "move_player L dx dy t = Inr (False, L')" by blast
    show ?thesis
    proof (cases "is_position_blocked L (player.x p + dx * TILE_SIZE) (player.y p + dy * TILE_SIZE)")
      case (Inl e)
      with a mp show ?thesis by (simp add: move_player_def Let_def)
    next
      case (Inr b)
      show ?thesis
      proof (cases b)
        case True
        with Inr a mp show ?thesis by (simp add: move_player_def Let_def)
      next
        case False
        with Inr a mp have "(case ?r of (r, p') \<Rightarrow> Inr (r, L\<lparr>player := Some p'\<rparr>))
                  = (Inr (False, L') :: error + (bool \<times> level_loader))"
          by (simp add: move_player_def Let_def get_level_size_def)
        with pm lp show ?thesis by (auto split: prod.splits)
      qed
    qed
  qed
  have 8: "Player_move p dx dy w h t
            = (False,
               if player.state p \<in> set [''attacking'', ''hurt'', ''dying'']
                  \<or> t - player.last_move p < 0.15 then p
               else if 0 < dx then p\<lparr>player.facing := ''right''\<rparr>
               else if dx < 0 then p\<lparr>player.facing := ''left''\<rparr>
               else p)"
    if "\<not> (0 \<le> player.x p + dx * TILE_SIZE \<and> player.x p + dx * TILE_SIZE \<le> w - TILE_SIZE
          \<and> 0 \<le> player.y p + dy * TILE_SIZE \<and> player.y p + dy * TILE_SIZE \<le> h - TILE_SIZE)"
    using that by (subst Player_move_cases) auto
  have 7: "player.x (snd (Player_move p dx dy w h t)) = player.x p
        \<and> player.y (snd (Player_move p dx dy w h t)) = player.y p
        \<and> player.rect (snd (Player_move p dx dy w h t)) = player.rect p
        \<and> player.state (snd (Player_move p dx dy w h t)) = player.state p
        \<and> player.last_move (snd (Player_move p dx dy w h t)) = player.last_move p
        \<and> snd (Player_move p dx dy w h t)
            = p\<lparr>player.facing := player.facing (snd (Player_move p dx dy w h t))\<rparr>"
    if "fst (Player_move p dx dy w h t) = False"
  proof -
    have "snd (Player_move p dx dy w h t) = p
          \<or> snd (Player_move p dx dy w h t) = p\<lparr>player.facing := ''right''\<rparr>
          \<or> snd (Player_move p dx dy w h t) = p\<lparr>player.facing := ''left''\<rparr>"
      using that by (auto simp: Player_move_def Let_def split: if_splits)
    then show ?thesis by auto
  qed
  show ?thesis using 1 2 3 4 5 6 7 8 by blast
qed

theorem move_rejected_witness:
  "move_player (example_level\<lparr>collision_grid := (replicate 15 (replicate 20 False))[2 := (replicate 20 False)[3 := True]]\<rparr>) 1 0 5
     = Inr (False, example_level\<lparr>collision_grid := (replicate 15 (replicate 20 False))[2 := (replicate 20 False)[3 := True]]\<rparr>)
   \<and> Player_move ((Player_init 32 32 0)\<lparr>player.state := ''hurt''\<rparr>) 1 0 320 240 5
     = (False, (Player_init 32 32 0)\<lparr>player.state := ''hurt''\<rparr>)
   \<and> move_player (example_level\<lparr>player := Some ((Player_init 32 32 0)\<lparr>player.last_move := 4.9\<rparr>)\<rparr>) 1 0 5
     = Inr (False, example_level\<lparr>player := Some ((Player_init 32 32 0)\<lparr>player.last_move := 4.9\<rparr>)\<rparr>)
   \<and> is_position_blocked example_level (- 16) 32 = Inr True
   \<and> move_player (example_level\<lparr>player := Some (Player_init 0 32 0)\<rparr>) (- 1) 0 1
     = Inr (False, example_level\<lparr>player := Some (Player_init 0 32 0)\<rparr>)
   \<and> Player_move (Player_init 0 32 0) (- 1) 0 320 240 1
     = (False, (Player_init 0 32 0)\<lparr>player.facing := ''left''\<rparr>)
   \<and> player.x (snd (Player_move (Player_init 0 32 0) (- 1) 0 320 240 1)) = 0
   \<and> player.state (snd (Player_move (Player_init 0 32 0) (- 1) 0 320 240 1)) = ''idle''"
proof -
  let ?G = "(replicate 15 (replicate 20 False))[2 := (replicate 20 False)[3 := True]]"
  let ?L1 = "example_level\<lparr>collision_grid := ?G\<rparr>"
  let ?p = "Player_init 32 32 0"
  let ?p3 = "?p\<lparr>player.last_move := 4.9\<rparr>"
  let ?L3 = "example_level\<lparr>player := Some ?p3\<rparr>"
  let ?q = "Player_init 0 32 0"
  let ?L5 = "example_level\<lparr>player := Some ?q\<rparr>"
  have xy: "player.x ?p = 32" "player.y ?p = 32" "player.x ?p3 = 32" "player.y ?p3 = 32"
    "player.x ?q = 0" "player.y ?q = 32"
    by (simp_all add: Player_init_def Let_def TILE_SIZE_def)
  have st: "player.state ?q = ''idle''" "player.last_move ?q = 0"
    by (simp_all add: Player_init_def Let_def)
  have b1: "is_position_blocked ?L1 (player.x ?p + 1 * TILE_SIZE) (player.y ?p + 0 * TILE_SIZE) = Inr True
            \<and> player ?L1 = Some ?p"
    unfolding xy by (simp add: is_position_blocked_def Let_def TILE_SIZE_def example_level_def)
  have b3: "is_position_blocked ?L3 (player.x ?p3 + 1 * TILE_SIZE) (player.y ?p3 + 0 * TILE_SIZE) = Inr False
            \<and> player ?L3 = Some ?p3
            \<and> (player.state ?p3 \<in> set [''attacking'', ''hurt'', ''dying''] \<or> 5 - player.last_move ?p3 < 0.15)"
    unfolding xy by (simp add: is_position_blocked_def Let_def TILE_SIZE_def example_level_def)
  have b4: "(- 16) div TILE_SIZE < 0 \<or> 32 div TILE_SIZE < 0
        \<or> 32 div TILE_SIZE \<ge> int (length (collision_grid example_level))
        \<or> (- 16) div TILE_SIZE \<ge> int (length (collision_grid example_level ! 0))"
    by (simp add: TILE_SIZE_def)
  have b5: "player ?L5 = Some ?q
      \<and> TILE_SIZE dvd player.x ?q \<and> TILE_SIZE dvd player.y ?q
      \<and> level_width ?L5 = TILE_SIZE * int (length (collision_grid ?L5 ! 0))
      \<and> level_height ?L5 = TILE_SIZE * int (length (collision_grid ?L5))
      \<and> \<not> (0 \<le> player.x ?q + (- 1) * TILE_SIZE
            \<and> player.x ?q + (- 1) * TILE_SIZE \<le> level_width ?L5 - TILE_SIZE
            \<and> 0 \<le> player.y ?q + 0 * TILE_SIZE
            \<and> player.y ?q + 0 * TILE_SIZE \<le> level_height ?L5 - TILE_SIZE)"
    unfolding xy by (simp add: TILE_SIZE_def example_level_def)
  have b8: "\<not> (0 \<le> player.x ?q + (- 1) * TILE_SIZE
               \<and> player.x ?q + (- 1) * TILE_SIZE \<le> 320 - TILE_SIZE
               \<and> 0 \<le> player.y ?q + 0 * TILE_SIZE
               \<and> player.y ?q + 0 * TILE_SIZE \<le> 240 - TILE_SIZE)"
    unfolding xy by (simp add: TILE_SIZE_def)
  from move_rejected [where L = ?L1 and p = ?p and dx = 1 and dy = 0 and t = 5] b1
  have c1: "move_player ?L1 1 0 5 = Inr (False, ?L1)" by blast
  from move_rejected [where p = "?p\<lparr>player.state := ''hurt''\<rparr>" and dx = 1 and dy = 0
      and t = 5 and w = 320 and h = 240]
  have c2: "Player_move (?p\<lparr>player.state := ''hurt''\<rparr>) 1 0 320 240 5 = (False, ?p\<lparr>player.state := ''hurt''\<rparr>)"
    by simp
  from move_rejected [where L = ?L3 and p = ?p3 and dx = 1 and dy = 0 and t = 5] b3
  have c3: "move_player ?L3 1 0 5 = Inr (False, ?L3)" by blast
  from move_rejected [where L = example_level and qx = "- 16" and qy = 32] b4
  have c4: "is_position_blocked example_level (- 16) 32 = Inr True" by blast
  from move_rejected [where L = ?L5 and p = ?q and dx = "- 1" and dy = 0 and t = 1] b5
  have c5: "move_player ?L5 (- 1) 0 1 = Inr (False, ?L5)" by blast
  from move_rejected [where L = ?L5 and p = ?q and dx = "- 1" and dy = 0 and t = 1
      and L' = ?L5] b5 c5
  have c6: "?L5 = ?L5" by blast
  from move_rejected [where p = ?q and dx = "- 1" and dy = 0 and t = 1 and w = 320 and h = 240] b8
  have c8: "Player_move ?q (- 1) 0 320 240 1
            = (False,
               if player.state ?q \<in> set [''attacking'', ''hurt'', ''dying'']
                  \<or> 1 - player.last_move ?q < 0.15 then ?q
               else if (0::int) < - 1 then ?q\<lparr>player.facing := ''right''\<rparr>
               else if (- 1::int) < 0 then ?q\<lparr>player.facing := ''left''\<rparr>
               else ?q)"
    by blast
  then have c8': "Player_move ?q (- 1) 0 320 240 1 = (False, ?q\<lparr>player.facing := ''left''\<rparr>)"
    unfolding st by simp
  from move_rejected [where p = ?q and dx = "- 1" and dy = 0 and t = 1 and w = 320 and h = 240] c8'
  have c7: "player.x (snd (Player_move ?q (- 1) 0 320 240 1)) = player.x ?q
        \<and> player.state (snd (Player_move ?q (- 1) 0 320 240 1)) = player.state ?q"
    by simp
  show ?thesis using c1 c2 c3 c4 c5 c8' c7 unfolding xy st by simp
qed


section \<open>Rejected damage\<close>

text \<open>
  Claim C4. For each of the three entity classes, \<^verbatim>\<open>take_damage\<close> called while the entity
  is protected returns \<^verbatim>\<open>False\<close> and leaves the whole object as it was, in particular
  its health and its behaviour state. The player is protected by a running invincibility
  timer or by the states hurt and dying; an enemy and the boss by the states hurt and
  dying (they have no invincibility timer).
\<close>

theorem take_damage_rejected:
  "(player.invincible_timer p > 0 \<or> player.state p = ''hurt'' \<or> player.state p = ''dying''
      \<longrightarrow> Player_take_damage p damage now = (False, p))
   \<and> (enemy.state e = ''hurt'' \<or> enemy.state e = ''dying''
      \<longrightarrow> Enemy_take_damage e now = (False, e))
   \<and> (boss.state b = ''hurt'' \<or> boss.state b = ''dying''
      \<longrightarrow> Boss_take_damage b now g = (False, b, g))"
  by (auto simp: Player_take_damage_def Enemy_take_damage_def Boss_take_damage_def)

theorem take_damage_rejected_witness:
  "Player_take_damage ((Player_init 0 0 0)\<lparr>player.invincible_timer := 1.8\<rparr>) 1 5
     = (False, (Player_init 0 0 0)\<lparr>player.invincible_timer := 1.8\<rparr>)
   \<and> Enemy_take_damage ((Enemy_init 0 0 ''rat'' ''horizontal'' 2 0)\<lparr>enemy.state := ''dying''\<rparr>) 5
     = (False, (Enemy_init 0 0 ''rat'' ''horizontal'' 2 0)\<lparr>enemy.state := ''dying''\<rparr>)
   \<and> Boss_take_damage ((Boss_init 0 0 0)\<lparr>boss.state := ''hurt''\<rparr>) 5 new_game
     = (False, (Boss_init 0 0 0)\<lparr>boss.state := ''hurt''\<rparr>, new_game)"
  using take_damage_rejected [where p = "(Player_init 0 0 0)\<lparr>player.invincible_timer := 1.8\<rparr>"
      and damage = 1 and now = 5
      and e = "(Enemy_init 0 0 ''rat'' ''horizontal'' 2 0)\<lparr>enemy.state := ''dying''\<rparr>"
      and b = "(Boss_init 0 0 0)\<lparr>boss.state := ''hurt''\<rparr>" and g = new_game]
  by simp


section \<open>Doors\<close>

lemma door_loop_first:
  assumes "\<forall>d' \<in> set pre. \<not> Door_check_collision d' pr"
    and "Door_check_collision d pr"
  shows "door_loop (pre @ d # post) pr L g now =
           (if Door_can_enter d g
            then (if door.locked d \<and> HAS_KEY g then g\<lparr>HAS_KEY := False\<rparr> else g,
                  snd (start_transition L now))
            else (g, L))"
  using assms by (induction pre) (simp_all add: Let_def)

text \<open>
  Claim C5. The player stands on a door: \<open>d\<close> is the first door of the level whose
  rectangle overlaps the player's, and no level transition is running (while one runs,
  \<^verbatim>\<open>try_enter_door\<close> returns at once). If \<open>d\<close> is unlocked the transition starts and
  nothing else changes. If \<open>d\<close> is locked and the key flag is set, the flag is cleared
  and the transition starts. If \<open>d\<close> is locked and the flag is not set, nothing
  changes at all. So a locked door lets the player pass exactly when the key flag is
  set, and the transition starts exactly when the door lets the player pass.
\<close>

theorem try_enter_door_correct:
  assumes "player L = Some p" and "\<not> transitioning L"
    and "doors L = pre @ d # post"
    and "\<forall>d' \<in> set pre. \<not> colliderect (door.rect d') (Player_get_rect p)"
    and "colliderect (door.rect d) (Player_get_rect p)"
  shows "(\<not> door.locked d \<longrightarrow>
            try_enter_door L g now = (g, L\<lparr>transitioning := True, transition_timer := now\<rparr>))
       \<and> (door.locked d \<and> HAS_KEY g \<longrightarrow>
            try_enter_door L g now
              = (g\<lparr>HAS_KEY := False\<rparr>, L\<lparr>transitioning := True, transition_timer := now\<rparr>))
       \<and> (door.locked d \<and> \<not> HAS_KEY g \<longrightarrow> try_enter_door L g now = (g, L))
       \<and> (Door_can_enter d g \<longleftrightarrow> \<not> door.locked d \<or> HAS_KEY g)
       \<and> (transitioning (snd (try_enter_door L g now)) \<longleftrightarrow> Door_can_enter d g)"
proof -
  have "try_enter_door L g now = door_loop (pre @ d # post) (Player_get_rect p) L g now"
    using assms(1-3) by (simp add: try_enter_door_def)
  also have "\<dots> = (if Door_can_enter d g
            then (if door.locked d \<and> HAS_KEY g then g\<lparr>HAS_KEY := False\<rparr> else g,
                  snd (start_transition L now))
            else (g, L))"
    using assms(4,5) by (intro door_loop_first) (simp_all add: Door_check_collision_def)
  finally show ?thesis
    using assms(2) by (auto simp: Door_can_enter_def start_transition_def)
qed

theorem try_enter_door_correct_witness:
  "try_enter_door example_level (new_game\<lparr>HAS_KEY := True\<rparr>) 9
     = (new_game\<lparr>HAS_KEY := False\<rparr>, example_level\<lparr>transitioning := True, transition_timer := 9\<rparr>)
   \<and> try_enter_door example_level new_game 9 = (new_game, example_level)"
proof -
  have a: "player example_level = Some (Player_init 32 32 0)" "\<not> transitioning example_level"
    "doors example_level =
       [\<lparr>door.rect = \<lparr>rect_x = 160, rect_y = 0, rect_w = 16, rect_h = 16\<rparr>, locked = False\<rparr>]
       @ \<lparr>door.rect = \<lparr>rect_x = 32, rect_y = 32, rect_w = 16, rect_h = 16\<rparr>, locked = True\<rparr> # []"
    by (simp_all add: example_level_def)
  have b: "\<forall>d' \<in> set [\<lparr>door.rect = \<lparr>rect_x = 160, rect_y = 0, rect_w = 16, rect_h = 16\<rparr>, locked = False\<rparr>].
            \<not> colliderect (door.rect d') (Player_get_rect (Player_init 32 32 0))"
    by (simp add: colliderect_def Player_get_rect_def Player_init_def Let_def TILE_SIZE_def)
  have c: "colliderect (door.rect \<lparr>door.rect = \<lparr>rect_x = 32, rect_y = 32, rect_w = 16, rect_h = 16\<rparr>, locked = True\<rparr>)
             (Player_get_rect (Player_init 32 32 0))"
    by (simp add: colliderect_def Player_get_rect_def Player_init_def Let_def TILE_SIZE_def)
  show ?thesis
    using try_enter_door_correct [OF a b c, of "new_game\<lparr>HAS_KEY := True\<rparr>" 9]
      try_enter_door_correct [OF a b c, of new_game 9]
    by (simp add: new_game_def)
qed


section \<open>High score: saving and loading\<close>
















section \<open>Facts about the collision loops\<close>

lemma Enemy_hit_accepted:
  assumes "enemy.state e \<noteq> ''hurt''" "enemy.state e \<noteq> ''dying''"
  shows "Enemy_take_damage e now =
           (True, e\<lparr>enemy.state := ''hurt'', enemy.state_timer := now,
                    enemy.anim := play (enemy.anim e) (''hurt_'' @ enemy.facing e) True now\<rparr>)"
  using assms by (simp add: Enemy_take_damage_def)

lemma sword_loop_first:
  assumes "\<forall>ob \<in> set pre. \<not> obj_hits sr ob" and "obj_hits sr (EnemyObj e)"
  shows "sword_loop (pre @ EnemyObj e # post) sr now g =
           (pre @ EnemyObj (Enemy_start_death (snd (Enemy_take_damage e now)) now) # post, g)"
  using assms
proof (induction pre)
  case Nil
  then have "enemy.state e \<noteq> ''hurt''" "enemy.state e \<noteq> ''dying''"
    by (simp_all add: obj_hits_def)
  from Enemy_hit_accepted[OF this, of now] Nil show ?case by simp
next
  case (Cons ob pre)
  then show ?case by simp
qed

lemma sword_loop_find:
  "(\<forall>b. find (obj_hits sr) obs \<noteq> Some (BossObj b)) \<Longrightarrow> snd (sword_loop obs sr now g) = g"
proof (induction obs)
  case Nil
  then show ?case by simp
next
  case (Cons ob obs)
  show ?case
  proof (cases "obj_hits sr ob")
    case True
    with Cons.prems show ?thesis by (cases ob) (auto split: prod.splits)
  next
    case False
    with Cons.prems have "\<forall>b. find (obj_hits sr) obs \<noteq> Some (BossObj b)" by simp
    from Cons.IH[OF this] False show ?thesis by (auto split: prod.splits)
  qed
qed

lemma pickup_loop_player:
  "pickup_loop pks pr p g = (pks', p', g') \<Longrightarrow> p' = p\<lparr>player.health := player.health p'\<rparr>"
proof (induction pks arbitrary: pks')
  case Nil
  then show ?case by simp
next
  case (Cons pk pks)
  show ?case
  proof (cases "\<not> pickup.collected pk \<and> colliderect pr (Pickup_get_rect pk)")
    case True
    with Cons.prems show ?thesis
      by (auto simp: Pickup_collect_def Let_def collect_heart_def split: if_splits)
  next
    case False
    with Cons.prems obtain q where "pickup_loop pks pr p g = (q, p', g')"
      by (auto split: prod.splits)
    from Cons.IH[OF this] show ?thesis .
  qed
qed

lemma enemy_loop_none:
  "\<forall>ob \<in> set obs. \<not> obj_hits pr ob \<Longrightarrow> enemy_loop obs pr p now = p"
  by (induction obs) simp_all

lemma Player_take_damage_attacking:
  "player.state (snd (Player_take_damage p n now)) = ''attacking''
     \<Longrightarrow> snd (Player_take_damage p n now) = p"
  by (auto simp: Player_take_damage_def Let_def Player_start_death_def Player_start_hurt_def
        split: if_splits)

lemma enemy_loop_attacking:
  "player.state (enemy_loop obs pr p now) = ''attacking'' \<Longrightarrow> enemy_loop obs pr p now = p"
  by (induction obs) (auto simp: Player_take_damage_attacking)


section \<open>An enemy dies from one sword hit\<close>

text \<open>
  Claim C10. An enemy that is not a boss has no health counter: an accepted
  \<^verbatim>\<open>Enemy.take_damage\<close> changes the state to hurt, the state timer and the animation, and
  nothing else. In the sword loop of \<^verbatim>\<open>_check_collisions\<close> the first object that the sword
  hits (an enemy or boss that is neither hurt nor dying and overlaps the sword) is the
  only one that is touched; when it is an enemy that is not a boss, its hit is accepted
  and \<^verbatim>\<open>start_death\<close> follows at once, so the loop leaves it in the dying state with the
  timer at the current instant, at the same position. The same holds for the whole of
  \<^verbatim>\<open>_check_collisions\<close> whenever the sword loop is reached with the player still
  attacking: the player is attacking and was not damaged in this call (the player is
  invincible, or no enemy overlaps the player).
\<close>

theorem enemy_dies_from_one_hit:
  "(enemy.state e \<noteq> ''hurt'' \<and> enemy.state e \<noteq> ''dying'' \<longrightarrow>
      Enemy_take_damage e now =
        (True, e\<lparr>enemy.state := ''hurt'', enemy.state_timer := now,
                 enemy.anim := play (enemy.anim e) (''hurt_'' @ enemy.facing e) True now\<rparr>))
   \<and> ((\<forall>ob \<in> set pre. \<not> obj_hits sr ob) \<and> obj_hits sr (EnemyObj e) \<longrightarrow>
        (\<exists>e'. sword_loop (pre @ EnemyObj e # post) sr now g = (pre @ EnemyObj e' # post, g)
             \<and> e' = Enemy_start_death (snd (Enemy_take_damage e now)) now
             \<and> enemy.state e' = ''dying'' \<and> enemy.state_timer e' = now
             \<and> enemy.x e' = enemy.x e \<and> enemy.y e' = enemy.y e))
   \<and> (player L = Some p \<and> player.state p = ''attacking''
        \<and> (0 < player.invincible_timer p \<or> (\<forall>ob \<in> set (objects L). \<not> obj_hits (Player_get_rect p) ob))
        \<and> get_sword_rect L = Some sr \<and> objects L = pre @ EnemyObj e # post
        \<and> (\<forall>ob \<in> set pre. \<not> obj_hits sr ob) \<and> obj_hits sr (EnemyObj e) \<longrightarrow>
        (\<exists>e'. objects (fst (check_collisions L g now)) = pre @ EnemyObj e' # post
             \<and> enemy.state e' = ''dying'' \<and> enemy.state_timer e' = now))"
proof -
  have 1: "Enemy_take_damage e now =
        (True, e\<lparr>enemy.state := ''hurt'', enemy.state_timer := now,
                 enemy.anim := play (enemy.anim e) (''hurt_'' @ enemy.facing e) True now\<rparr>)"
    if "enemy.state e \<noteq> ''hurt'' \<and> enemy.state e \<noteq> ''dying''"
    using that by (simp add: Enemy_hit_accepted)
  have 2: "\<exists>e'. sword_loop (pre @ EnemyObj e # post) sr now g = (pre @ EnemyObj e' # post, g)
             \<and> e' = Enemy_start_death (snd (Enemy_take_damage e now)) now
             \<and> enemy.state e' = ''dying'' \<and> enemy.state_timer e' = now
             \<and> enemy.x e' = enemy.x e \<and> enemy.y e' = enemy.y e"
    if h: "(\<forall>ob \<in> set pre. \<not> obj_hits sr ob) \<and> obj_hits sr (EnemyObj e)" for g
  proof -
    from h have "sword_loop (pre @ EnemyObj e # post) sr now g =
           (pre @ EnemyObj (Enemy_start_death (snd (Enemy_take_damage e now)) now) # post, g)"
      by (intro sword_loop_first) simp_all
    then show ?thesis
      by (simp add: Enemy_start_death_def Enemy_take_damage_def)
  qed
  have 3: "\<exists>e'. objects (fst (check_collisions L g now)) = pre @ EnemyObj e' # post
             \<and> enemy.state e' = ''dying'' \<and> enemy.state_timer e' = now"
    if h: "player L = Some p \<and> player.state p = ''attacking''
        \<and> (0 < player.invincible_timer p \<or> (\<forall>ob \<in> set (objects L). \<not> obj_hits (Player_get_rect p) ob))
        \<and> get_sword_rect L = Some sr \<and> objects L = pre @ EnemyObj e # post
        \<and> (\<forall>ob \<in> set pre. \<not> obj_hits sr ob) \<and> obj_hits sr (EnemyObj e)"
  proof -
    obtain pks p1 g1 where pl: "pickup_loop (pickups L) (Player_get_rect p) p g = (pks, p1, g1)"
      by (cases "pickup_loop (pickups L) (Player_get_rect p) p g") auto
    from pickup_loop_player[OF pl] have p1: "p1 = p\<lparr>player.health := player.health p1\<rparr>" .
    define p2 where "p2 = (if player.invincible_timer p1 \<le> 0
                             then enemy_loop (objects L) (Player_get_rect p) p1 now else p1)"
    have it: "player.invincible_timer p1 = player.invincible_timer p"
      by (subst p1) simp
    have "p2 = p1"
      using h it enemy_loop_none[of "objects L" "Player_get_rect p" p1 now]
      by (auto simp: p2_def)
    then have p2: "p2 = p\<lparr>player.health := player.health p1\<rparr>" using p1 by simp
    have st: "player.state p2 = ''attacking''" by (subst p2) (simp add: h)
    have sr: "get_sword_rect (L\<lparr>pickups := pks, player := Some p2\<rparr>) = Some sr"
      using h by (subst p2) (auto simp: get_sword_rect_def)
    from 2[of g1] h obtain e' where
      sl: "sword_loop (pre @ EnemyObj e # post) sr now g1 = (pre @ EnemyObj e' # post, g1)"
      and e': "enemy.state e' = ''dying''" "enemy.state_timer e' = now" by blast
    have "objects (fst (check_collisions L g now)) = pre @ EnemyObj e' # post"
      using h pl st sr sl unfolding check_collisions_def Let_def p2_def[symmetric]
      by (simp add: p2_def[symmetric])
    with e' show ?thesis by blast
  qed
  show ?thesis using 1 2 3 by blast
qed


theorem enemy_dies_from_one_hit_witness:
  "\<exists>e'. objects (fst (check_collisions
            (example_level\<lparr>player := Some ((Player_init 32 32 0)\<lparr>player.state := ''attacking''\<rparr>),
               objects := [PlayerObj] @ EnemyObj (Enemy_init 48 32 ''rat'' ''horizontal'' 2 0) # []\<rparr>)
            new_game 7))
          = [PlayerObj] @ EnemyObj e' # []
        \<and> enemy.state e' = ''dying'' \<and> enemy.state_timer e' = 7"
proof -
  let ?p = "(Player_init 32 32 0)\<lparr>player.state := ''attacking''\<rparr>"
  let ?e = "Enemy_init 48 32 ''rat'' ''horizontal'' 2 0"
  let ?L = "example_level\<lparr>player := Some ?p, objects := [PlayerObj] @ EnemyObj ?e # []\<rparr>"
  let ?sr = "\<lparr>rect_x = 48, rect_y = 32, rect_w = 16, rect_h = 16\<rparr>"
  have pr: "Player_get_rect ?p = \<lparr>rect_x = 32, rect_y = 32, rect_w = 16, rect_h = 16\<rparr>"
    by (simp add: Player_get_rect_def Player_init_def Let_def TILE_SIZE_def)
  have er: "Enemy_get_rect ?e = \<lparr>rect_x = 48, rect_y = 32, rect_w = 16, rect_h = 16\<rparr>"
    "enemy.state ?e = ''moving''"
    by (simp_all add: Enemy_get_rect_def Enemy_init_def Let_def TILE_SIZE_def)
  have h: "player ?L = Some ?p \<and> player.state ?p = ''attacking''
        \<and> (0 < player.invincible_timer ?p \<or> (\<forall>ob \<in> set (objects ?L). \<not> obj_hits (Player_get_rect ?p) ob))
        \<and> get_sword_rect ?L = Some ?sr \<and> objects ?L = [PlayerObj] @ EnemyObj ?e # []
        \<and> (\<forall>ob \<in> set [PlayerObj]. \<not> obj_hits ?sr ob) \<and> obj_hits ?sr (EnemyObj ?e)"
    unfolding pr
    by (simp add: obj_hits_def er colliderect_def get_sword_rect_def)
       (simp add: Player_init_def Let_def TILE_SIZE_def)
  from enemy_dies_from_one_hit [where L = ?L and p = ?p and sr = ?sr and pre = "[PlayerObj]"
      and e = ?e and post = "[]" and g = new_game and now = 7] h
  show ?thesis by blast
qed


section \<open>Collecting a coin\<close>

lemma zip_self_same: "filter (\<lambda>(a, b). a \<noteq> b) (zip xs xs) = []"
  by (induction xs) simp_all

lemma pickup_loop_none:
  "\<forall>pk \<in> set pks. pickup.collected pk \<or> \<not> colliderect pr (Pickup_get_rect pk)
     \<Longrightarrow> pickup_loop pks pr p g = (pks, p, g)"
  by (induction pks) auto

lemma pickup_loop_first:
  assumes "\<forall>pk \<in> set pre. pickup.collected pk \<or> \<not> colliderect pr (Pickup_get_rect pk)"
    and "\<not> pickup.collected c" and "colliderect pr (Pickup_get_rect c)"
  shows "pickup_loop (pre @ c # post) pr p g =
           (case Pickup_collect c p g of (r, c', p', g') \<Rightarrow> (pre @ c' # post, p', g'))"
  using assms by (induction pre) (auto split: prod.splits)

lemma pickup_loop_at_most_one:
  "pickup_loop pks pr p g = (pks', p', g') \<Longrightarrow>
     length pks' = length pks \<and> length (filter (\<lambda>(a, b). a \<noteq> b) (zip pks pks')) \<le> 1"
proof (induction pks arbitrary: pks')
  case Nil
  then show ?case by simp
next
  case (Cons pk pks)
  show ?case
  proof (cases "\<not> pickup.collected pk \<and> colliderect pr (Pickup_get_rect pk)")
    case True
    with Cons.prems obtain pk' where "pks' = pk' # pks" by (auto split: prod.splits)
    then show ?thesis by (simp add: zip_self_same)
  next
    case False
    with Cons.prems obtain q where q: "pickup_loop pks pr p g = (q, p', g')" and "pks' = pk # q"
      by (auto split: prod.splits)
    with Cons.IH[OF q] show ?thesis by simp
  qed
qed

lemma check_collisions_pickups:
  assumes "player L = Some p"
  shows "pickups (fst (check_collisions L g now))
           = fst (pickup_loop (pickups L) (Player_get_rect p) p g)"
  using assms
  by (simp add: check_collisions_def Let_def split: prod.splits option.splits)

lemma get_sword_rect_health:
  "player L = Some p \<Longrightarrow>
     get_sword_rect (L\<lparr>pickups := pks, player := Some (p\<lparr>player.health := h\<rparr>)\<rparr>)
       = get_sword_rect L"
  by (simp add: get_sword_rect_def)

lemma check_collisions_globals_cases:
  assumes "player L = Some p"
  shows "snd (check_collisions L g now)
           = snd (snd (pickup_loop (pickups L) (Player_get_rect p) p g))
         \<or> (\<exists>sr. get_sword_rect L = Some sr
               \<and> snd (check_collisions L g now)
                   = snd (sword_loop (objects L) sr now
                            (snd (snd (pickup_loop (pickups L) (Player_get_rect p) p g)))))"
proof -
  obtain pks p1 g1 where pl: "pickup_loop (pickups L) (Player_get_rect p) p g = (pks, p1, g1)"
    by (cases "pickup_loop (pickups L) (Player_get_rect p) p g") auto
  from pickup_loop_player[OF pl] have p1: "p1 = p\<lparr>player.health := player.health p1\<rparr>" .
  define p2 where "p2 = (if player.invincible_timer p1 \<le> 0
                           then enemy_loop (objects L) (Player_get_rect p) p1 now else p1)"
  define L2 where "L2 = L\<lparr>pickups := pks, player := Some p2\<rparr>"
  have cc: "check_collisions L g now =
              (if player.state p2 = ''attacking'' then
                 (case get_sword_rect L2 of
                    None \<Rightarrow> (L2, g1)
                  | Some sword_rect \<Rightarrow>
                      (case sword_loop (objects L2) sword_rect now g1 of
                         (obs, g2) \<Rightarrow> (L2\<lparr>objects := obs\<rparr>, g2)))
               else (L2, g1))"
    unfolding L2_def p2_def check_collisions_def Let_def using assms(1) pl by simp
  show ?thesis
  proof (cases "player.state p2 = ''attacking''")
    case False
    then show ?thesis using cc pl by simp
  next
    case True
    then have "p2 = p1"
      using enemy_loop_attacking[of "objects L" "Player_get_rect p" p1 now]
      by (auto simp: p2_def split: if_splits)
    then have "L2 = L\<lparr>pickups := pks, player := Some (p\<lparr>player.health := player.health p1\<rparr>)\<rparr>"
      using p1 by (simp add: L2_def)
    then have sr: "get_sword_rect L2 = get_sword_rect L" and ob: "objects L2 = objects L"
      using get_sword_rect_health[OF assms(1)] by simp_all
    show ?thesis
    proof (cases "get_sword_rect L")
      case None
      then show ?thesis using cc True sr pl by simp
    next
      case (Some sword_rect)
      then have "snd (check_collisions L g now) = snd (sword_loop (objects L) sword_rect now g1)"
        using cc True sr ob by (simp split: prod.splits)
      then show ?thesis using Some pl by simp
    qed
  qed
qed

lemma check_collisions_globals:
  assumes "player L = Some p" "\<not> sword_hits_boss L"
  shows "snd (check_collisions L g now)
           = snd (snd (pickup_loop (pickups L) (Player_get_rect p) p g))"
proof -
  let ?g1 = "snd (snd (pickup_loop (pickups L) (Player_get_rect p) p g))"
  have "snd (sword_loop (objects L) sr now ?g1) = ?g1" if "get_sword_rect L = Some sr" for sr
  proof -
    from that assms(2) have "\<forall>b. find (obj_hits sr) (objects L) \<noteq> Some (BossObj b)"
      by (auto simp: sword_hits_boss_def split: option.splits obj.splits)
    from sword_loop_find[OF this] show ?thesis .
  qed
  then show ?thesis
    using check_collisions_globals_cases[OF assms(1), of g now] by auto
qed

lemma not_attacking_no_hit:
  "player L = Some p \<Longrightarrow> player.state p \<noteq> ''attacking'' \<Longrightarrow> \<not> sword_hits_boss L"
  by (simp add: sword_hits_boss_def get_sword_rect_def)

text \<open>
  Claim C6. In one call of \<^verbatim>\<open>_check_collisions\<close>, when \<open>c\<close> is the first pickup of the list
  that is not collected and overlaps the player, and \<open>c\<close> is a coin: \<open>c\<close> becomes collected
  and the other pickups stay as they are, whatever else the level holds; the pickup loop
  adds exactly 10 to the score and changes nothing else of the module-level state; and
  the module-level state after the whole call is that state, or the result of the sword
  loop run on it. The score after the call is therefore the old score plus exactly 10
  whenever the sword of this call does not land on a boss (\<open>sword_hits_boss\<close>: the first
  object that the sword loop hits is a boss), in particular whenever the player is not
  attacking, as on the update that follows a move. When every pickup that overlaps the
  player is already collected, as the coin is on every later tick, the call leaves the
  pickups as they are and, under the same condition on the sword, the module-level
  state too; \<^verbatim>\<open>collect\<close> on a collected pickup returns \<^verbatim>\<open>False\<close> and changes nothing. In
  every call the list of pickups keeps its length and at most one of its elements
  changes. The filter at the end of \<^verbatim>\<open>LevelLoader.update\<close> then drops the collected coin.
\<close>

theorem coin_pickup_correct:
  "(player L = Some p \<and> pickups L = pre @ c # post
      \<and> (\<forall>pk \<in> set pre. pickup.collected pk \<or> \<not> colliderect (Player_get_rect p) (Pickup_get_rect pk))
      \<and> \<not> pickup.collected c \<and> colliderect (Player_get_rect p) (Pickup_get_rect c)
      \<and> pickup.pickup_type c = ''coin''
      \<longrightarrow> pickups (fst (check_collisions L g now)) = pre @ c\<lparr>pickup.collected := True\<rparr> # post
        \<and> snd (snd (pickup_loop (pickups L) (Player_get_rect p) p g)) = g\<lparr>SCORE := SCORE g + 10\<rparr>
        \<and> (snd (check_collisions L g now) = g\<lparr>SCORE := SCORE g + 10\<rparr>
            \<or> (\<exists>sr. get_sword_rect L = Some sr
                  \<and> snd (check_collisions L g now)
                      = snd (sword_loop (objects L) sr now (g\<lparr>SCORE := SCORE g + 10\<rparr>))))
        \<and> (\<not> sword_hits_boss L
              \<longrightarrow> SCORE (snd (check_collisions L g now)) = SCORE g + 10
                \<and> snd (check_collisions L g now) = g\<lparr>SCORE := SCORE g + 10\<rparr>)
        \<and> (player.state p \<noteq> ''attacking''
              \<longrightarrow> snd (check_collisions L g now) = g\<lparr>SCORE := SCORE g + 10\<rparr>))
   \<and> (player L = Some p
      \<and> (\<forall>pk \<in> set (pickups L).
            pickup.collected pk \<or> \<not> colliderect (Player_get_rect p) (Pickup_get_rect pk))
      \<longrightarrow> pickups (fst (check_collisions L g now)) = pickups L
        \<and> snd (snd (pickup_loop (pickups L) (Player_get_rect p) p g)) = g
        \<and> (\<not> sword_hits_boss L \<longrightarrow> snd (check_collisions L g now) = g)
        \<and> (player.state p \<noteq> ''attacking'' \<longrightarrow> snd (check_collisions L g now) = g))
   \<and> (pickup.collected c \<longrightarrow> Pickup_collect c p g = (False, c, p, g))
   \<and> (player L = Some p
      \<longrightarrow> length (pickups (fst (check_collisions L g now))) = length (pickups L)
        \<and> length (filter (\<lambda>(a, b). a \<noteq> b)
                    (zip (pickups L) (pickups (fst (check_collisions L g now))))) \<le> 1)
   \<and> (filter (\<lambda>pk. \<not> Pickup_should_be_removed pk) (pre @ c\<lparr>pickup.collected := True\<rparr> # post)
        = filter (\<lambda>pk. \<not> Pickup_should_be_removed pk) (pre @ post))"
proof -
  have 1: "pickups (fst (check_collisions L g now)) = pre @ c\<lparr>pickup.collected := True\<rparr> # post
        \<and> snd (snd (pickup_loop (pickups L) (Player_get_rect p) p g)) = g\<lparr>SCORE := SCORE g + 10\<rparr>
        \<and> (snd (check_collisions L g now) = g\<lparr>SCORE := SCORE g + 10\<rparr>
            \<or> (\<exists>sr. get_sword_rect L = Some sr
                  \<and> snd (check_collisions L g now)
                      = snd (sword_loop (objects L) sr now (g\<lparr>SCORE := SCORE g + 10\<rparr>))))
        \<and> (\<not> sword_hits_boss L
              \<longrightarrow> SCORE (snd (check_collisions L g now)) = SCORE g + 10
                \<and> snd (check_collisions L g now) = g\<lparr>SCORE := SCORE g + 10\<rparr>)
        \<and> (player.state p \<noteq> ''attacking''
              \<longrightarrow> snd (check_collisions L g now) = g\<lparr>SCORE := SCORE g + 10\<rparr>)"
    if h: "player L = Some p \<and> pickups L = pre @ c # post
      \<and> (\<forall>pk \<in> set pre. pickup.collected pk \<or> \<not> colliderect (Player_get_rect p) (Pickup_get_rect pk))
      \<and> \<not> pickup.collected c \<and> colliderect (Player_get_rect p) (Pickup_get_rect c)
      \<and> pickup.pickup_type c = ''coin''"
  proof -
    have "Pickup_collect c p g = (True, c\<lparr>pickup.collected := True\<rparr>, p, g\<lparr>SCORE := SCORE g + 10\<rparr>)"
      using h by (simp add: Pickup_collect_def Let_def collect_coin_def)
    moreover have "pickup_loop (pre @ c # post) (Player_get_rect p) p g =
           (case Pickup_collect c p g of (r, c', p', g') \<Rightarrow> (pre @ c' # post, p', g'))"
      using h by (intro pickup_loop_first) simp_all
    ultimately have pl: "pickup_loop (pickups L) (Player_get_rect p) p g
        = (pre @ c\<lparr>pickup.collected := True\<rparr> # post, p, g\<lparr>SCORE := SCORE g + 10\<rparr>)"
      using h by simp
    have a: "pickups (fst (check_collisions L g now)) = pre @ c\<lparr>pickup.collected := True\<rparr> # post"
      using h pl check_collisions_pickups[of L p g now] by simp
    have b: "snd (check_collisions L g now) = g\<lparr>SCORE := SCORE g + 10\<rparr>" if "\<not> sword_hits_boss L"
      using h pl that check_collisions_globals[of L p g now] by simp
    have c: "snd (snd (pickup_loop (pickups L) (Player_get_rect p) p g)) = g\<lparr>SCORE := SCORE g + 10\<rparr>"
      using pl by simp
    have d: "snd (check_collisions L g now) = g\<lparr>SCORE := SCORE g + 10\<rparr>
            \<or> (\<exists>sr. get_sword_rect L = Some sr
                  \<and> snd (check_collisions L g now)
                      = snd (sword_loop (objects L) sr now (g\<lparr>SCORE := SCORE g + 10\<rparr>)))"
      using h check_collisions_globals_cases[of L p g now] unfolding c by blast
    have e: "snd (check_collisions L g now) = g\<lparr>SCORE := SCORE g + 10\<rparr>"
      if "player.state p \<noteq> ''attacking''"
      using h that b not_attacking_no_hit[of L p] by blast
    show ?thesis using a b c d e by simp
  qed
  have 2: "pickups (fst (check_collisions L g now)) = pickups L
        \<and> snd (snd (pickup_loop (pickups L) (Player_get_rect p) p g)) = g
        \<and> (\<not> sword_hits_boss L \<longrightarrow> snd (check_collisions L g now) = g)
        \<and> (player.state p \<noteq> ''attacking'' \<longrightarrow> snd (check_collisions L g now) = g)"
    if h: "player L = Some p
      \<and> (\<forall>pk \<in> set (pickups L).
            pickup.collected pk \<or> \<not> colliderect (Player_get_rect p) (Pickup_get_rect pk))"
  proof -
    have pl: "pickup_loop (pickups L) (Player_get_rect p) p g = (pickups L, p, g)"
      using h by (intro pickup_loop_none) simp
    have a: "pickups (fst (check_collisions L g now)) = pickups L"
      using h pl check_collisions_pickups[of L p g now] by simp
    have b: "snd (check_collisions L g now) = g" if "\<not> sword_hits_boss L"
      using h pl that check_collisions_globals[of L p g now] by simp
    have e: "snd (check_collisions L g now) = g" if "player.state p \<noteq> ''attacking''"
      using h that b not_attacking_no_hit[of L p] by blast
    show ?thesis using a b e pl by simp
  qed
  have 3: "Pickup_collect c p g = (False, c, p, g)" if "pickup.collected c"
    using that by (simp add: Pickup_collect_def)
  have 4: "length (pickups (fst (check_collisions L g now))) = length (pickups L)
        \<and> length (filter (\<lambda>(a, b). a \<noteq> b)
                    (zip (pickups L) (pickups (fst (check_collisions L g now))))) \<le> 1"
    if h: "player L = Some p"
  proof -
    obtain pks p1 g1 where pl: "pickup_loop (pickups L) (Player_get_rect p) p g = (pks, p1, g1)"
      by (cases "pickup_loop (pickups L) (Player_get_rect p) p g") auto
    from pickup_loop_at_most_one[OF pl] check_collisions_pickups[OF h, of g now] pl
    show ?thesis by simp
  qed
  have 5: "filter (\<lambda>pk. \<not> Pickup_should_be_removed pk) (pre @ c\<lparr>pickup.collected := True\<rparr> # post)
        = filter (\<lambda>pk. \<not> Pickup_should_be_removed pk) (pre @ post)"
    by (simp add: Pickup_should_be_removed_def)
  show ?thesis using 1 2 3 4 5 by blast
qed

theorem coin_pickup_correct_witness:
  "SCORE (snd (check_collisions example_level new_game 1)) = 10
   \<and> pickups (fst (check_collisions example_level new_game 1))
       = [Pickup_init 64 64 ''heart'' 0] @ (Pickup_init 32 32 ''coin'' 0)\<lparr>pickup.collected := True\<rparr> # []
   \<and> snd (check_collisions
           (example_level\<lparr>pickups := [Pickup_init 64 64 ''heart'' 0,
                          (Pickup_init 32 32 ''coin'' 0)\<lparr>pickup.collected := True\<rparr>]\<rparr>)
           (new_game\<lparr>SCORE := 10\<rparr>) 2)
       = new_game\<lparr>SCORE := 10\<rparr>"
proof -
  let ?p = "Player_init 32 32 0"
  let ?h = "Pickup_init 64 64 ''heart'' 0"
  let ?c = "Pickup_init 32 32 ''coin'' 0"
  let ?L = "example_level"
  let ?L2 = "example_level\<lparr>pickups := [?h, ?c\<lparr>pickup.collected := True\<rparr>]\<rparr>"
  have pr: "Player_get_rect ?p = \<lparr>rect_x = 32, rect_y = 32, rect_w = 16, rect_h = 16\<rparr>"
    by (simp add: Player_get_rect_def Player_init_def Let_def TILE_SIZE_def)
  have st: "player.state ?p = ''idle''" by (simp add: Player_init_def Let_def)
  have hr: "Pickup_get_rect ?h = \<lparr>rect_x = 64, rect_y = 64, rect_w = 16, rect_h = 16\<rparr>"
    and cr: "Pickup_get_rect ?c = \<lparr>rect_x = 32, rect_y = 32, rect_w = 16, rect_h = 16\<rparr>"
    and ct: "pickup.pickup_type ?c = ''coin''" "\<not> pickup.collected ?c"
    by (simp_all add: Pickup_get_rect_def Pickup_init_def Let_def TILE_SIZE_def
        Pickup_ANIMATIONS_def)
  have nb: "\<not> sword_hits_boss ?L" "\<not> sword_hits_boss ?L2"
    by (simp_all add: sword_hits_boss_def get_sword_rect_def example_level_def st)
  have h1: "player ?L = Some ?p \<and> pickups ?L = [?h] @ ?c # []
      \<and> (\<forall>pk \<in> set [?h]. pickup.collected pk \<or> \<not> colliderect (Player_get_rect ?p) (Pickup_get_rect pk))
      \<and> \<not> pickup.collected ?c \<and> colliderect (Player_get_rect ?p) (Pickup_get_rect ?c)
      \<and> pickup.pickup_type ?c = ''coin''"
    unfolding pr by (simp add: hr cr ct colliderect_def example_level_def)
  have h2: "player ?L2 = Some ?p
      \<and> (\<forall>pk \<in> set (pickups ?L2).
            pickup.collected pk \<or> \<not> colliderect (Player_get_rect ?p) (Pickup_get_rect pk))"
    unfolding pr by (simp add: hr colliderect_def example_level_def)
  from coin_pickup_correct [where L = ?L and p = ?p and pre = "[?h]" and c = ?c and post = "[]"
      and g = new_game and now = 1] h1 nb(1)
  have a: "SCORE (snd (check_collisions ?L new_game 1)) = SCORE new_game + 10
        \<and> pickups (fst (check_collisions ?L new_game 1)) = [?h] @ ?c\<lparr>pickup.collected := True\<rparr> # []"
    by blast
  from coin_pickup_correct [where L = ?L2 and p = ?p and g = "new_game\<lparr>SCORE := 10\<rparr>" and now = 2]
    h2 nb(2)
  have b: "snd (check_collisions ?L2 (new_game\<lparr>SCORE := 10\<rparr>) 2) = new_game\<lparr>SCORE := 10\<rparr>"
    by blast
  show ?thesis using a b by (simp add: new_game_def)
qed


section \<open>The patrol of an enemy\<close>

lemma Enemy_anim_update_ok:
  assumes "anim_ok (enemy.anim e)"
  shows "\<exists>a. Enemy_anim_update e now = Inr (e\<lparr>enemy.anim := a\<rparr>) \<and> anim_ok a"
proof -
  from anim_ok_update[OF assms, of now] obtain a where
    "AnimationManager_update (enemy.anim e) now = Inr a" "anim_ok a" by blast
  then show ?thesis by (auto simp: Enemy_anim_update_def)
qed

lemma Enemy_step_wait:
  assumes "enemy.state e = ''moving''" "now - enemy.last_move e < enemy.move_cooldown e"
    "anim_ok (enemy.anim e)"
  shows "\<exists>a. Enemy_update e now loader = Inr (e\<lparr>enemy.anim := a\<rparr>) \<and> anim_ok a"
  using assms Enemy_anim_update_ok[OF assms(3), of now]
  by (simp add: Enemy_update_def Enemy_update_movement_def)

lemma Enemy_step_idle:
  assumes "enemy.state e = ''idle''" "now - enemy.state_timer e < 3.0"
    "anim_ok (enemy.anim e)"
  shows "\<exists>a. Enemy_update e now loader = Inr (e\<lparr>enemy.anim := a\<rparr>) \<and> anim_ok a"
  using assms Enemy_anim_update_ok[OF assms(3), of now]
  by (simp add: Enemy_update_def)

lemma Enemy_step_turn:
  assumes "enemy.state e = ''idle''" "now - enemy.state_timer e \<ge> 3.0"
    "anim_ok (enemy.anim e)"
  shows "\<exists>a. Enemy_update e now loader =
               Inr (e\<lparr>enemy.facing := (if enemy.facing e = ''right'' then ''left'' else ''right''),
                      enemy.state := ''moving'', enemy.blocks_moved := 0, enemy.anim := a\<rparr>)
             \<and> anim_ok a"
proof -
  let ?f = "if enemy.facing e = ''right'' then ''left'' else ''right''"
  let ?e1 = "e\<lparr>enemy.facing := ?f, enemy.state := ''moving'', enemy.blocks_moved := 0,
               enemy.anim := play (enemy.anim e) (''walk_'' @ ?f) True now\<rparr>"
  have "anim_ok (enemy.anim ?e1)" using assms(3) by (simp add: anim_ok_play)
  from Enemy_anim_update_ok[OF this, of now] obtain a where
    "Enemy_anim_update ?e1 now = Inr (?e1\<lparr>enemy.anim := a\<rparr>)" "anim_ok a" by blast
  then show ?thesis using assms(1,2) by (auto simp: Enemy_update_def Let_def)
qed

lemma Enemy_step_move:
  assumes "enemy.state e = ''moving''" "\<not> now - enemy.last_move e < enemy.move_cooldown e"
    "enemy.movement_type e = ''horizontal''" "enemy.facing e = ''right''"
    "is_position_blocked lv (enemy.x e + 16) (enemy.y e) = Inr False"
    "anim_ok (enemy.anim e)"
  shows "\<exists>a. Enemy_update e now (Some lv) =
               Inr (if enemy.blocks_moved e + 1 \<ge> enemy.blocks e
                    then e\<lparr>enemy.x := enemy.x e + 16, enemy.blocks_moved := enemy.blocks_moved e + 1,
                           enemy.last_move := now, enemy.state := ''idle'',
                           enemy.state_timer := now, enemy.anim := a\<rparr>
                    else e\<lparr>enemy.x := enemy.x e + 16, enemy.blocks_moved := enemy.blocks_moved e + 1,
                           enemy.last_move := now, enemy.anim := a\<rparr>)
             \<and> anim_ok a"
proof -
  let ?e1 = "e\<lparr>enemy.x := enemy.x e + 16, enemy.blocks_moved := enemy.blocks_moved e + 1,
               enemy.last_move := now\<rparr>"
  let ?e2 = "?e1\<lparr>enemy.state := ''idle'', enemy.state_timer := now,
                 enemy.anim := play (enemy.anim e) (''idle_'' @ enemy.facing e) True now\<rparr>"
  have m: "Enemy_update_movement e now (Some lv) =
             Inr (if enemy.blocks_moved e + 1 \<ge> enemy.blocks e then ?e2 else ?e1)"
    using assms(2-5) by (simp add: Enemy_update_movement_def Let_def TILE_SIZE_def)
  show ?thesis
  proof (cases "enemy.blocks_moved e + 1 \<ge> enemy.blocks e")
    case True
    have "anim_ok (enemy.anim ?e2)" using assms(6) by (simp add: anim_ok_play)
    from Enemy_anim_update_ok[OF this, of now] obtain a where
      "Enemy_anim_update ?e2 now = Inr (?e2\<lparr>enemy.anim := a\<rparr>)" "anim_ok a" by blast
    then show ?thesis using assms(1) m True by (auto simp: Enemy_update_def)
  next
    case False
    have "anim_ok (enemy.anim ?e1)" using assms(6) by simp
    from Enemy_anim_update_ok[OF this, of now] obtain a where
      "Enemy_anim_update ?e1 now = Inr (?e1\<lparr>enemy.anim := a\<rparr>)" "anim_ok a" by blast
    then show ?thesis using assms(1) m False by (auto simp: Enemy_update_def)
  qed
qed

lemma Enemy_step_blocked:
  assumes "enemy.state e = ''moving''" "\<not> now - enemy.last_move e < enemy.move_cooldown e"
    "is_position_blocked lv
       (enemy.x e + (if enemy.movement_type e = ''horizontal''
                     then (if enemy.facing e = ''right'' then 1 else - 1) else 0) * TILE_SIZE)
       (enemy.y e + (if enemy.movement_type e = ''horizontal''
                     then 0 else (if enemy.facing e = ''right'' then 1 else - 1)) * TILE_SIZE)
     = Inr True"
    "anim_ok (enemy.anim e)"
  shows "\<exists>a. Enemy_update e now (Some lv) =
               Inr (e\<lparr>enemy.state := ''idle'', enemy.state_timer := now, enemy.anim := a\<rparr>)
             \<and> anim_ok a"
proof -
  let ?e2 = "e\<lparr>enemy.state := ''idle'', enemy.state_timer := now,
               enemy.anim := play (enemy.anim e) (''idle_'' @ enemy.facing e) True now\<rparr>"
  have m: "Enemy_update_movement e now (Some lv) = Inr ?e2"
    using assms(2,3) by (simp add: Enemy_update_movement_def Let_def)
  have "anim_ok (enemy.anim ?e2)" using assms(4) by (simp add: anim_ok_play)
  from Enemy_anim_update_ok[OF this, of now] obtain a where
    "Enemy_anim_update ?e2 now = Inr (?e2\<lparr>enemy.anim := a\<rparr>)" "anim_ok a" by blast
  then show ?thesis using assms(1) m by (auto simp: Enemy_update_def)
qed

lemma Enemy_updates_append:
  "Enemy_updates e (ts @ us) loader =
     (case Enemy_updates e ts loader of
        Inl err \<Rightarrow> Inl err
      | Inr e' \<Rightarrow> Enemy_updates e' us loader)"
  by (induction ts arbitrary: e) (auto split: sum.splits)

lemma Enemy_updates_wait:
  assumes "enemy.state e = ''moving''" "\<forall>t \<in> set ts. t - enemy.last_move e < enemy.move_cooldown e"
    "anim_ok (enemy.anim e)"
  shows "\<exists>a. Enemy_updates e ts loader = Inr (e\<lparr>enemy.anim := a\<rparr>) \<and> anim_ok a"
  using assms
proof (induction ts arbitrary: e)
  case Nil
  then show ?case by (intro exI[of _ "enemy.anim e"]) simp
next
  case (Cons t ts)
  from Enemy_step_wait[OF Cons.prems(1) _ Cons.prems(3), of t loader] Cons.prems(2)
  obtain a where a: "Enemy_update e t loader = Inr (e\<lparr>enemy.anim := a\<rparr>)" "anim_ok a" by auto
  from Cons.IH[of "e\<lparr>enemy.anim := a\<rparr>"] Cons.prems a(2)
  obtain a' where "Enemy_updates (e\<lparr>enemy.anim := a\<rparr>) ts loader = Inr (e\<lparr>enemy.anim := a'\<rparr>)"
    "anim_ok a'" by auto
  with a show ?case by auto
qed

lemma Enemy_updates_idle:
  assumes "enemy.state e = ''idle''" "\<forall>t \<in> set ts. t - enemy.state_timer e < 3.0"
    "anim_ok (enemy.anim e)"
  shows "\<exists>a. Enemy_updates e ts loader = Inr (e\<lparr>enemy.anim := a\<rparr>) \<and> anim_ok a"
  using assms
proof (induction ts arbitrary: e)
  case Nil
  then show ?case by (intro exI[of _ "enemy.anim e"]) simp
next
  case (Cons t ts)
  from Enemy_step_idle[OF Cons.prems(1) _ Cons.prems(3), of t loader] Cons.prems(2)
  obtain a where a: "Enemy_update e t loader = Inr (e\<lparr>enemy.anim := a\<rparr>)" "anim_ok a" by auto
  from Cons.IH[of "e\<lparr>enemy.anim := a\<rparr>"] Cons.prems a(2)
  obtain a' where "Enemy_updates (e\<lparr>enemy.anim := a\<rparr>) ts loader = Inr (e\<lparr>enemy.anim := a'\<rparr>)"
    "anim_ok a'" by auto
  with a show ?case by auto
qed


lemma enemy_patrol_run:
  assumes "enemy.state e0 = ''moving''" "enemy.movement_type e0 = ''horizontal''"
    and "enemy.facing e0 = ''right''" "enemy.blocks e0 = 2" "enemy.blocks_moved e0 = 0"
    and "enemy.move_cooldown e0 = 0.3" "anim_ok (enemy.anim e0)"
    and "is_position_blocked lv (enemy.x e0 + 16) (enemy.y e0) = Inr False"
    and "is_position_blocked lv (enemy.x e0 + 32) (enemy.y e0) = Inr False"
    and "\<forall>t \<in> set ts0. t - enemy.last_move e0 < 0.3" "t1 - enemy.last_move e0 \<ge> 0.3"
    and "\<forall>t \<in> set ts1. t - t1 < 0.3" "t2 - t1 \<ge> 0.3"
    and "\<forall>t \<in> set ts2. t - t2 < 3.0" "t3 - t2 \<ge> 3.0"
  shows "\<exists>a1 a2 a3.
           Enemy_updates e0 (ts0 @ [t1] @ ts1) (Some lv)
             = Inr (e0\<lparr>enemy.x := enemy.x e0 + 16, enemy.blocks_moved := 1,
                       enemy.last_move := t1, enemy.anim := a1\<rparr>)
         \<and> Enemy_updates e0 (ts0 @ [t1] @ ts1 @ [t2] @ ts2) (Some lv)
             = Inr (e0\<lparr>enemy.x := enemy.x e0 + 32, enemy.blocks_moved := 2,
                       enemy.last_move := t2, enemy.state := ''idle'',
                       enemy.state_timer := t2, enemy.anim := a2\<rparr>)
         \<and> Enemy_updates e0 (ts0 @ [t1] @ ts1 @ [t2] @ ts2 @ [t3]) (Some lv)
             = Inr (e0\<lparr>enemy.x := enemy.x e0 + 32, enemy.blocks_moved := 0,
                       enemy.last_move := t2, enemy.state := ''moving'',
                       enemy.state_timer := t2, enemy.facing := ''left'', enemy.anim := a3\<rparr>)"
proof -
  let ?L = "Some lv"
  \<comment> \<open>ticks before the first move\<close>
  from Enemy_updates_wait[of e0 ts0 ?L] assms(1,6,7,10)
  obtain b0 where s0: "Enemy_updates e0 ts0 ?L = Inr (e0\<lparr>enemy.anim := b0\<rparr>)" and ok0: "anim_ok b0"
    by auto
  let ?e0 = "e0\<lparr>enemy.anim := b0\<rparr>"
  \<comment> \<open>first accepted move\<close>
  have "\<exists>a. Enemy_update ?e0 t1 ?L =
               Inr (if enemy.blocks_moved ?e0 + 1 \<ge> enemy.blocks ?e0
                    then ?e0\<lparr>enemy.x := enemy.x ?e0 + 16, enemy.blocks_moved := enemy.blocks_moved ?e0 + 1,
                           enemy.last_move := t1, enemy.state := ''idle'',
                           enemy.state_timer := t1, enemy.anim := a\<rparr>
                    else ?e0\<lparr>enemy.x := enemy.x ?e0 + 16, enemy.blocks_moved := enemy.blocks_moved ?e0 + 1,
                           enemy.last_move := t1, enemy.anim := a\<rparr>)
             \<and> anim_ok a"
    using assms(1,2,3,6,8,11) ok0 by (intro Enemy_step_move) simp_all
  then obtain b1 where s1: "Enemy_update ?e0 t1 ?L =
      Inr (e0\<lparr>enemy.x := enemy.x e0 + 16, enemy.blocks_moved := 1, enemy.last_move := t1,
              enemy.anim := b1\<rparr>)" and ok1: "anim_ok b1"
    using assms(4,5) by auto
  let ?e1 = "e0\<lparr>enemy.x := enemy.x e0 + 16, enemy.blocks_moved := 1, enemy.last_move := t1,
               enemy.anim := b1\<rparr>"
  \<comment> \<open>ticks within the cooldown of the first move\<close>
  from Enemy_updates_wait[of ?e1 ts1 ?L] assms(1,6,12) ok1
  obtain c1 where w1: "Enemy_updates ?e1 ts1 ?L = Inr (?e1\<lparr>enemy.anim := c1\<rparr>)" and okc1: "anim_ok c1"
    by auto
  let ?e1' = "e0\<lparr>enemy.x := enemy.x e0 + 16, enemy.blocks_moved := 1, enemy.last_move := t1,
                enemy.anim := c1\<rparr>"
  have w1': "Enemy_updates ?e1 ts1 ?L = Inr ?e1'" using w1 by simp
  \<comment> \<open>second accepted move: the run of two blocks is complete\<close>
  have p9: "is_position_blocked lv (enemy.x e0 + 16 + 16) (enemy.y e0) = Inr False"
    using assms(9) by (simp add: add.commute)
  have "\<exists>a. Enemy_update ?e1' t2 ?L =
               Inr (if enemy.blocks_moved ?e1' + 1 \<ge> enemy.blocks ?e1'
                    then ?e1'\<lparr>enemy.x := enemy.x ?e1' + 16, enemy.blocks_moved := enemy.blocks_moved ?e1' + 1,
                           enemy.last_move := t2, enemy.state := ''idle'',
                           enemy.state_timer := t2, enemy.anim := a\<rparr>
                    else ?e1'\<lparr>enemy.x := enemy.x ?e1' + 16, enemy.blocks_moved := enemy.blocks_moved ?e1' + 1,
                           enemy.last_move := t2, enemy.anim := a\<rparr>)
             \<and> anim_ok a"
    using assms(1,2,3,6,13) okc1 p9 by (intro Enemy_step_move) simp_all
  then obtain b2 where s2: "Enemy_update ?e1' t2 ?L =
      Inr (e0\<lparr>enemy.x := enemy.x e0 + 32, enemy.blocks_moved := 2, enemy.last_move := t2,
              enemy.state := ''idle'', enemy.state_timer := t2, enemy.anim := b2\<rparr>)"
    and ok2: "anim_ok b2"
    using assms(4) by (auto simp: add.commute)
  let ?e2 = "e0\<lparr>enemy.x := enemy.x e0 + 32, enemy.blocks_moved := 2, enemy.last_move := t2,
               enemy.state := ''idle'', enemy.state_timer := t2, enemy.anim := b2\<rparr>"
  \<comment> \<open>idle ticks\<close>
  from Enemy_updates_idle[of ?e2 ts2 ?L] assms(14) ok2
  obtain c2 where w2: "Enemy_updates ?e2 ts2 ?L = Inr (?e2\<lparr>enemy.anim := c2\<rparr>)" and okc2: "anim_ok c2"
    by auto
  let ?e2' = "e0\<lparr>enemy.x := enemy.x e0 + 32, enemy.blocks_moved := 2, enemy.last_move := t2,
                enemy.state := ''idle'', enemy.state_timer := t2, enemy.anim := c2\<rparr>"
  have w2': "Enemy_updates ?e2 ts2 ?L = Inr ?e2'" using w2 by simp
  \<comment> \<open>the turn\<close>
  have "\<exists>a. Enemy_update ?e2' t3 ?L =
               Inr (?e2'\<lparr>enemy.facing := (if enemy.facing ?e2' = ''right'' then ''left'' else ''right''),
                      enemy.state := ''moving'', enemy.blocks_moved := 0, enemy.anim := a\<rparr>)
             \<and> anim_ok a"
    using assms(15) okc2 by (intro Enemy_step_turn) simp_all
  then obtain b3 where s3': "Enemy_update ?e2' t3 ?L =
               Inr (?e2'\<lparr>enemy.facing := (if enemy.facing ?e2' = ''right'' then ''left'' else ''right''),
                      enemy.state := ''moving'', enemy.blocks_moved := 0, enemy.anim := b3\<rparr>)"
    by blast
  have s3: "Enemy_update ?e2' t3 ?L =
      Inr (e0\<lparr>enemy.x := enemy.x e0 + 32, enemy.blocks_moved := 0, enemy.last_move := t2,
              enemy.state := ''moving'', enemy.state_timer := t2, enemy.facing := ''left'',
              enemy.anim := b3\<rparr>)"
    unfolding s3' using assms(3) by simp
  have r1: "Enemy_updates e0 (ts0 @ [t1] @ ts1) ?L = Inr ?e1'"
    using s0 s1 w1' by (simp add: Enemy_updates_append)
  have r2: "Enemy_updates e0 (ts0 @ [t1] @ ts1 @ [t2] @ ts2) ?L = Inr ?e2'"
    using s0 s1 w1' s2 w2' by (simp add: Enemy_updates_append)
  have r3: "Enemy_updates e0 (ts0 @ [t1] @ ts1 @ [t2] @ ts2 @ [t3]) ?L
      = Inr (e0\<lparr>enemy.x := enemy.x e0 + 32, enemy.blocks_moved := 0, enemy.last_move := t2,
              enemy.state := ''moving'', enemy.state_timer := t2, enemy.facing := ''left'',
              enemy.anim := b3\<rparr>)"
    using s0 s1 w1' s2 w2' s3 by (simp add: Enemy_updates_append)
  show ?thesis using r1 r2 r3 by blast
qed

text \<open>
  Claim C8. An enemy that is moving, patrols horizontally, faces right, has
  \<^verbatim>\<open>blocks = 2\<close>, has not moved yet in this run and finds the next two tiles to its right
  free. Ticks that come less than 0.3 s after the last move change nothing but the
  animation. The first tick that comes 0.3 s or more after the last move takes the enemy
  one tile to the right, and it keeps moving; the next such tick takes it a second tile
  to the right and puts it in the idle state, with the state timer at that instant. Ticks
  less than 3.0 s after that instant leave it idle, facing right, where it is. The first
  tick 3.0 s or more after that instant turns it to the left, resets the block counter
  to 0 and puts it back in the moving state. No tick of the run raises an exception.
  Moreover a moving enemy whose cooldown has passed and whose destination is blocked
  goes idle in that very tick, without moving.
\<close>

theorem enemy_patrol_correct:
  "(enemy.state e0 = ''moving'' \<and> enemy.movement_type e0 = ''horizontal''
      \<and> enemy.facing e0 = ''right'' \<and> enemy.blocks e0 = 2 \<and> enemy.blocks_moved e0 = 0
      \<and> enemy.move_cooldown e0 = 0.3 \<and> anim_ok (enemy.anim e0)
      \<and> is_position_blocked lv (enemy.x e0 + 16) (enemy.y e0) = Inr False
      \<and> is_position_blocked lv (enemy.x e0 + 32) (enemy.y e0) = Inr False
      \<and> (\<forall>t \<in> set ts0. t - enemy.last_move e0 < 0.3) \<and> t1 - enemy.last_move e0 \<ge> 0.3
      \<and> (\<forall>t \<in> set ts1. t - t1 < 0.3) \<and> t2 - t1 \<ge> 0.3
      \<and> (\<forall>t \<in> set ts2. t - t2 < 3.0) \<and> t3 - t2 \<ge> 3.0
    \<longrightarrow> (\<exists>a1 a2 a3.
           Enemy_updates e0 (ts0 @ [t1] @ ts1) (Some lv)
             = Inr (e0\<lparr>enemy.x := enemy.x e0 + 16, enemy.blocks_moved := 1,
                       enemy.last_move := t1, enemy.anim := a1\<rparr>)
         \<and> Enemy_updates e0 (ts0 @ [t1] @ ts1 @ [t2] @ ts2) (Some lv)
             = Inr (e0\<lparr>enemy.x := enemy.x e0 + 32, enemy.blocks_moved := 2,
                       enemy.last_move := t2, enemy.state := ''idle'',
                       enemy.state_timer := t2, enemy.anim := a2\<rparr>)
         \<and> Enemy_updates e0 (ts0 @ [t1] @ ts1 @ [t2] @ ts2 @ [t3]) (Some lv)
             = Inr (e0\<lparr>enemy.x := enemy.x e0 + 32, enemy.blocks_moved := 0,
                       enemy.last_move := t2, enemy.state := ''moving'',
                       enemy.state_timer := t2, enemy.facing := ''left'', enemy.anim := a3\<rparr>)))
   \<and> (enemy.state e = ''moving'' \<and> now - enemy.last_move e \<ge> enemy.move_cooldown e
      \<and> is_position_blocked lv
           (enemy.x e + (if enemy.movement_type e = ''horizontal''
                         then (if enemy.facing e = ''right'' then 1 else - 1) else 0) * TILE_SIZE)
           (enemy.y e + (if enemy.movement_type e = ''horizontal''
                         then 0 else (if enemy.facing e = ''right'' then 1 else - 1)) * TILE_SIZE)
         = Inr True
      \<and> anim_ok (enemy.anim e)
    \<longrightarrow> (\<exists>a. Enemy_update e now (Some lv)
              = Inr (e\<lparr>enemy.state := ''idle'', enemy.state_timer := now, enemy.anim := a\<rparr>)))"
proof (intro conjI impI)
  assume h: "enemy.state e0 = ''moving'' \<and> enemy.movement_type e0 = ''horizontal''
      \<and> enemy.facing e0 = ''right'' \<and> enemy.blocks e0 = 2 \<and> enemy.blocks_moved e0 = 0
      \<and> enemy.move_cooldown e0 = 0.3 \<and> anim_ok (enemy.anim e0)
      \<and> is_position_blocked lv (enemy.x e0 + 16) (enemy.y e0) = Inr False
      \<and> is_position_blocked lv (enemy.x e0 + 32) (enemy.y e0) = Inr False
      \<and> (\<forall>t \<in> set ts0. t - enemy.last_move e0 < 0.3) \<and> t1 - enemy.last_move e0 \<ge> 0.3
      \<and> (\<forall>t \<in> set ts1. t - t1 < 0.3) \<and> t2 - t1 \<ge> 0.3
      \<and> (\<forall>t \<in> set ts2. t - t2 < 3.0) \<and> t3 - t2 \<ge> 3.0"
  show "\<exists>a1 a2 a3.
           Enemy_updates e0 (ts0 @ [t1] @ ts1) (Some lv)
             = Inr (e0\<lparr>enemy.x := enemy.x e0 + 16, enemy.blocks_moved := 1,
                       enemy.last_move := t1, enemy.anim := a1\<rparr>)
         \<and> Enemy_updates e0 (ts0 @ [t1] @ ts1 @ [t2] @ ts2) (Some lv)
             = Inr (e0\<lparr>enemy.x := enemy.x e0 + 32, enemy.blocks_moved := 2,
                       enemy.last_move := t2, enemy.state := ''idle'',
                       enemy.state_timer := t2, enemy.anim := a2\<rparr>)
         \<and> Enemy_updates e0 (ts0 @ [t1] @ ts1 @ [t2] @ ts2 @ [t3]) (Some lv)
             = Inr (e0\<lparr>enemy.x := enemy.x e0 + 32, enemy.blocks_moved := 0,
                       enemy.last_move := t2, enemy.state := ''moving'',
                       enemy.state_timer := t2, enemy.facing := ''left'', enemy.anim := a3\<rparr>)"
    by (rule enemy_patrol_run) (use h in blast)+
next
  assume h: "enemy.state e = ''moving'' \<and> now - enemy.last_move e \<ge> enemy.move_cooldown e
      \<and> is_position_blocked lv
           (enemy.x e + (if enemy.movement_type e = ''horizontal''
                         then (if enemy.facing e = ''right'' then 1 else - 1) else 0) * TILE_SIZE)
           (enemy.y e + (if enemy.movement_type e = ''horizontal''
                         then 0 else (if enemy.facing e = ''right'' then 1 else - 1)) * TILE_SIZE)
         = Inr True
      \<and> anim_ok (enemy.anim e)"
  then have "\<not> now - enemy.last_move e < enemy.move_cooldown e" by simp
  from Enemy_step_blocked[OF _ this, of lv] h
  show "\<exists>a. Enemy_update e now (Some lv)
              = Inr (e\<lparr>enemy.state := ''idle'', enemy.state_timer := now, enemy.anim := a\<rparr>)"
    by blast
qed

theorem enemy_patrol_correct_witness:
  "\<exists>a1 a2 a3.
     Enemy_updates (Enemy_init 64 32 ''rat'' ''horizontal'' 2 0) ([0.1, 0.2] @ [0.3] @ [0.4])
         (Some example_level)
       = Inr ((Enemy_init 64 32 ''rat'' ''horizontal'' 2 0)
                \<lparr>enemy.x := enemy.x (Enemy_init 64 32 ''rat'' ''horizontal'' 2 0) + 16,
                  enemy.blocks_moved := 1, enemy.last_move := 0.3, enemy.anim := a1\<rparr>)
   \<and> Enemy_updates (Enemy_init 64 32 ''rat'' ''horizontal'' 2 0)
         ([0.1, 0.2] @ [0.3] @ [0.4] @ [0.7] @ [1, 3.6]) (Some example_level)
       = Inr ((Enemy_init 64 32 ''rat'' ''horizontal'' 2 0)
                \<lparr>enemy.x := enemy.x (Enemy_init 64 32 ''rat'' ''horizontal'' 2 0) + 32,
                  enemy.blocks_moved := 2, enemy.last_move := 0.7, enemy.state := ''idle'',
                  enemy.state_timer := 0.7, enemy.anim := a2\<rparr>)
   \<and> Enemy_updates (Enemy_init 64 32 ''rat'' ''horizontal'' 2 0)
         ([0.1, 0.2] @ [0.3] @ [0.4] @ [0.7] @ [1, 3.6] @ [3.7]) (Some example_level)
       = Inr ((Enemy_init 64 32 ''rat'' ''horizontal'' 2 0)
                \<lparr>enemy.x := enemy.x (Enemy_init 64 32 ''rat'' ''horizontal'' 2 0) + 32,
                  enemy.blocks_moved := 0, enemy.last_move := 0.7, enemy.state := ''moving'',
                  enemy.state_timer := 0.7, enemy.facing := ''left'', enemy.anim := a3\<rparr>)"
proof -
  let ?e = "Enemy_init 64 32 ''rat'' ''horizontal'' 2 0"
  have f: "enemy.state ?e = ''moving''" "enemy.movement_type ?e = ''horizontal''"
    "enemy.facing ?e = ''right''" "enemy.blocks ?e = 2" "enemy.blocks_moved ?e = 0"
    "enemy.move_cooldown ?e = 0.3" "enemy.last_move ?e = 0" "enemy.x ?e = 64" "enemy.y ?e = 32"
    by (simp_all add: Enemy_init_def Let_def TILE_SIZE_def)
  have ok: "anim_ok (enemy.anim ?e)"
    by (simp add: Enemy_init_def Let_def anim_ok_play anim_ok_init)
  have b: "is_position_blocked example_level (enemy.x ?e + 16) (enemy.y ?e) = Inr False"
    "is_position_blocked example_level (enemy.x ?e + 32) (enemy.y ?e) = Inr False"
    unfolding f by (simp_all add: is_position_blocked_def Let_def TILE_SIZE_def example_level_def)
  have t: "(\<forall>t \<in> set [0.1, 0.2::real]. t - enemy.last_move ?e < 0.3)"
    "(0.3::real) - enemy.last_move ?e \<ge> 0.3"
    "(\<forall>t \<in> set [0.4::real]. t - 0.3 < 0.3)" "(0.7::real) - 0.3 \<ge> 0.3"
    "(\<forall>t \<in> set [1, 3.6::real]. t - 0.7 < 3.0)" "(3.7::real) - 0.7 \<ge> 3.0"
    unfolding f by simp_all
  from enemy_patrol_correct [where ?e0.0 = ?e and lv = example_level and ?ts0.0 = "[0.1, 0.2]"
      and ?t1.0 = "0.3" and ?ts1.0 = "[0.4]" and ?t2.0 = "0.7" and ?ts2.0 = "[1, 3.6]" and ?t3.0 = "3.7"]
    f(1-6) ok b t
  show ?thesis by blast
qed


end
